theory Spec2Isabelle
  imports Main "HOL-Library.Multiset"
begin

section \<open>Cards\<close>

text \<open>
  A rank is an int or a string in the source (\<^verbatim>\<open>'ace'\<close>, \<^verbatim>\<open>2\<close> .. \<^verbatim>\<open>10\<close>,
  \<^verbatim>\<open>'jack'\<close>, \<^verbatim>\<open>'queen'\<close>, \<^verbatim>\<open>'king'\<close>); a suit is a string.
\<close>

datatype rank = RankStr string | RankInt int

definition SUITS :: "string list" where
  "SUITS = [''hearts'', ''spades'', ''clubs'', ''diamonds'']"

definition RANKS :: "rank list" where
  "RANKS = [RankStr ''ace'', RankInt 2, RankInt 3, RankInt 4, RankInt 5, RankInt 6,
            RankInt 7, RankInt 8, RankInt 9, RankInt 10,
            RankStr ''jack'', RankStr ''queen'', RankStr ''king'']"

datatype error =
    ValueError string
  | TypeError string
  | GameError string
  | IndexError string
  | KeyError string
  | AttributeError string

text \<open>
  \<^verbatim>\<open>Card\<close> stores \<^verbatim>\<open>_rank\<close>, \<^verbatim>\<open>_suit\<close> and \<^verbatim>\<open>_value\<close>. The three are assigned once,
  in \<^verbatim>\<open>__init__\<close>, and only read afterwards; \<^verbatim>\<open>_value\<close> is the expression
  \<^verbatim>\<open>rank if rank in range(2, 10) else 1 if rank == 'ace' else 0\<close> of the rank, so the
  record keeps rank and suit and \<open>card_value\<close> is that expression.
\<close>

record card =
  rank :: rank
  suit :: string

definition card_value :: "card \<Rightarrow> int" where
  "card_value c =
     (case rank c of
        RankInt n \<Rightarrow> if 2 \<le> n \<and> n < 10 then n else 0
      | RankStr s \<Rightarrow> if s = ''ace'' then 1 else 0)"

definition Card_init :: "rank \<Rightarrow> string \<Rightarrow> error + card" where
  "Card_init r s =
     (if r \<notin> set RANKS then Inl (ValueError ''Invalid card rank.'')
      else if s \<notin> set SUITS then Inl (ValueError ''Invalid card suit.'')
      else Inr \<lparr>rank = r, suit = s\<rparr>)"

text \<open>\<^verbatim>\<open>Card.__add__\<close> (and \<^verbatim>\<open>__radd__\<close>, the same function): \<^verbatim>\<open>(self._value + other) % 10\<close>.\<close>

definition Card_add :: "card \<Rightarrow> int \<Rightarrow> int" where
  "Card_add c other = (card_value c + other) mod 10"

text \<open>\<^verbatim>\<open>str\<close> of a Python int, for \<^verbatim>\<open>Card.__str__\<close>.\<close>

fun str_nat :: "nat \<Rightarrow> string" where
  "str_nat n =
     (if n < 10 then [char_of (48 + n)]
      else str_nat (n div 10) @ [char_of (48 + n mod 10)])"

definition str_int :: "int \<Rightarrow> string" where
  "str_int i = (if i < 0 then ''-'' @ str_nat (nat (- i)) else str_nat (nat i))"

definition str_rank :: "rank \<Rightarrow> string" where
  "str_rank r = (case r of RankStr s \<Rightarrow> s | RankInt n \<Rightarrow> str_int n)"

definition Card_str :: "card \<Rightarrow> string" where
  "Card_str c = str_rank (rank c) @ '' of '' @ suit c"

section \<open>Python values that reach the type checks\<close>

text \<open>
  \<^verbatim>\<open>Hand.add_cards\<close>, \<^verbatim>\<open>Banco.draw_third\<close> and \<^verbatim>\<open>Shoe.__init__\<close> test their argument
  with \<^verbatim>\<open>isinstance\<close> or for truth, so the argument is a Python value that may or may
  not be a card. A \<^verbatim>\<open>Card\<close> defines neither \<^verbatim>\<open>__bool__\<close> nor \<^verbatim>\<open>__len__\<close>: it is true.
\<close>

datatype pyval = PNone | PInt int | PStr string | PCard card

fun truthy :: "pyval \<Rightarrow> bool" where
  "truthy PNone = False"
| "truthy (PInt i) = (i \<noteq> 0)"
| "truthy (PStr s) = (s \<noteq> [])"
| "truthy (PCard c) = True"

section \<open>Hands\<close>

record hand =
  hand_cards :: "card list"

text \<open>
  \<^verbatim>\<open>Hand.value\<close> is \<^verbatim>\<open>sum(self._cards)\<close>: the built-in starts from 0 and adds the
  cards from the left, each addition going through \<^verbatim>\<open>Card.__radd__\<close>.
\<close>

definition hand_value :: "hand \<Rightarrow> int" where
  "hand_value h = foldl (\<lambda>acc c. Card_add c acc) 0 (hand_cards h)"

text \<open>
  \<^verbatim>\<open>Hand.add_cards\<close> appends card after card and raises at the first element that is
  not a \<^verbatim>\<open>Card\<close>; the cards before it stay appended.
\<close>

fun add_cards :: "hand \<Rightarrow> pyval list \<Rightarrow> (error + unit) \<times> hand" where
  "add_cards h [] = (Inr (), h)"
| "add_cards h (x # xs) =
     (case x of
        PCard c \<Rightarrow> add_cards (h\<lparr>hand_cards := hand_cards h @ [c]\<rparr>) xs
      | _ \<Rightarrow> (Inl (TypeError ''Not a valid Card type object.''), h))"

definition Hand_init :: "pyval list \<Rightarrow> error + hand" where
  "Hand_init cs =
     (case add_cards \<lparr>hand_cards = []\<rparr> cs of
        (Inl e, h) \<Rightarrow> Inl e
      | (Inr u, h) \<Rightarrow> Inr h)"

definition Hand_is_natural :: "hand \<Rightarrow> bool" where
  "Hand_is_natural h =
     (if length (hand_cards h) = 2 \<and> 8 \<le> hand_value h \<and> hand_value h \<le> 9 then True
      else False)"

text \<open>\<^verbatim>\<open>Punto\<close> and \<^verbatim>\<open>Banco\<close> construct through \<^verbatim>\<open>Hand.__init__\<close>.\<close>

definition Punto_init :: "pyval list \<Rightarrow> error + hand" where
  "Punto_init cs = Hand_init cs"

definition Banco_init :: "pyval list \<Rightarrow> error + hand" where
  "Banco_init cs = Hand_init cs"

definition Punto_draw_third :: "hand \<Rightarrow> bool" where
  "Punto_draw_third h =
     (if length (hand_cards h) = 2
      then (if 0 \<le> hand_value h \<and> hand_value h \<le> 5 then True else False)
      else False)"

definition third_card_rules :: "int \<rightharpoonup> int list" where
  "third_card_rules =
     map_of [(3, [0, 1, 2, 3, 4, 5, 6, 7, 9]),
             (4, [2, 3, 4, 5, 6, 7]),
             (5, [4, 5, 6, 7]),
             (6, [6, 7])]"

definition Banco_draw_third :: "hand \<Rightarrow> pyval \<Rightarrow> error + bool" where
  "Banco_draw_third h player_third =
     (if length (hand_cards h) = 2 then
        (if truthy player_third then
           (case player_third of
              PCard c \<Rightarrow>
                (if 0 \<le> hand_value h \<and> hand_value h \<le> 2 then Inr True
                 else if 3 \<le> hand_value h \<and> hand_value h \<le> 6 then
                   (case third_card_rules (hand_value h) of
                      None \<Rightarrow> Inl (KeyError (str_int (hand_value h)))
                    | Some l \<Rightarrow> if card_value c \<in> set l then Inr True else Inr False)
                 else Inr False)
            | _ \<Rightarrow> Inl (TypeError ''Punto third card not a Card type object.''))
         else (if 0 \<le> hand_value h \<and> hand_value h \<le> 5 then Inr True else Inr False))
      else Inr False)"

section \<open>The world outside the objects\<close>

text \<open>
  Two things outside the objects are read or written: the random generator behind
  \<^verbatim>\<open>random.shuffle\<close> and the standard output of \<^verbatim>\<open>print\<close>. The generator is a tape
  of draws, consumed from the front (a tape that has run out yields 0); the theorems
  hold for every tape. \<^verbatim>\<open>random.shuffle\<close> is the standard library's: for \<^verbatim>\<open>i\<close> from
  the last index down to 1 it draws \<^verbatim>\<open>j\<close> below \<^verbatim>\<open>i + 1\<close> and swaps the elements at
  \<^verbatim>\<open>i\<close> and \<^verbatim>\<open>j\<close>.
\<close>

record world =
  rng :: "nat list"
  stdout :: "string list"

definition randbelow :: "nat \<Rightarrow> nat list \<Rightarrow> nat \<times> nat list" where
  "randbelow n g = (case g of [] \<Rightarrow> (0, []) | r # rs \<Rightarrow> (r mod n, rs))"

fun shuffle_loop :: "nat \<Rightarrow> 'a list \<Rightarrow> nat list \<Rightarrow> 'a list \<times> nat list" where
  "shuffle_loop 0 xs g = (xs, g)"
| "shuffle_loop (Suc i) xs g =
     (case randbelow (Suc i + 1) g of
        (j, g') \<Rightarrow> shuffle_loop i (xs[Suc i := xs ! j, j := xs ! Suc i]) g')"

definition shuffle :: "'a list \<Rightarrow> nat list \<Rightarrow> 'a list \<times> nat list" where
  "shuffle xs g = shuffle_loop (length xs - 1) xs g"

section \<open>The shoe\<close>

record shoe =
  num_decks :: int
  shoe_cards :: "card list"

text \<open>
  One pass of \<^verbatim>\<open>for suit in SUITS: for rank in RANKS: Card(rank, suit)\<close>: the cards
  of one deck as the constructor returns them, in the order they are appended.
\<close>

definition deck_cards :: "(error + card) list" where
  "deck_cards = concat (map (\<lambda>su. map (\<lambda>r. Card_init r su) RANKS) SUITS)"

fun append_new :: "card list \<Rightarrow> (error + card) list \<Rightarrow> (error + unit) \<times> card list" where
  "append_new cs [] = (Inr (), cs)"
| "append_new cs (x # xs) =
     (case x of Inl e \<Rightarrow> (Inl e, cs) | Inr c \<Rightarrow> append_new (cs @ [c]) xs)"

text \<open>
  \<^verbatim>\<open>Shoe.add_decks(num_decks=None)\<close>: \<^verbatim>\<open>not num_decks\<close> holds for \<^verbatim>\<open>None\<close> and for 0;
  \<^verbatim>\<open>range\<close> of a negative number is empty. The new cards are appended to the cards
  present and the whole list is shuffled.
\<close>

definition add_decks :: "shoe \<Rightarrow> int option \<Rightarrow> world \<Rightarrow> (error + unit) \<times> shoe \<times> world" where
  "add_decks s num_decks_arg w =
     (let n = (case num_decks_arg of
                 None \<Rightarrow> num_decks s
               | Some k \<Rightarrow> if k = 0 then num_decks s else k)
      in case append_new (shoe_cards s) (concat (replicate (nat n) deck_cards)) of
           (Inl e, cs) \<Rightarrow> (Inl e, s\<lparr>shoe_cards := cs\<rparr>, w)
         | (Inr u, cs) \<Rightarrow>
             (case shuffle cs (rng w) of
                (cs', g') \<Rightarrow> (Inr (), s\<lparr>shoe_cards := cs'\<rparr>, w\<lparr>rng := g'\<rparr>)))"

definition Shoe_init :: "pyval \<Rightarrow> world \<Rightarrow> (error + shoe) \<times> world" where
  "Shoe_init nd w =
     (case nd of
        PInt n \<Rightarrow>
          if n < 1 then (Inl (ValueError ''Number of decks must be positive.''), w)
          else (case add_decks \<lparr>num_decks = n, shoe_cards = []\<rparr> None w of
                  (Inl e, s, w') \<Rightarrow> (Inl e, w')
                | (Inr u, s, w') \<Rightarrow> (Inr s, w'))
      | _ \<Rightarrow> (Inl (TypeError ''Number of decks must be an integer.''), w))"

text \<open>\<^verbatim>\<open>list.pop()\<close>: the last element, or IndexError on an empty list.\<close>

definition pop :: "'a list \<Rightarrow> error + ('a \<times> 'a list)" where
  "pop xs = (if xs = [] then Inl (IndexError ''pop from empty list'')
             else Inr (last xs, butlast xs))"

text \<open>
  One iteration of the loop of \<^verbatim>\<open>Shoe.draw_cards\<close>: refill and print when the shoe is
  empty, then pop a card.
\<close>

definition draw_step :: "shoe \<Rightarrow> world \<Rightarrow> (error + card) \<times> shoe \<times> world" where
  "draw_step s w =
     (case (if length (shoe_cards s) = 0
            then (case add_decks s None w of
                    (Inl e, s1, w1) \<Rightarrow> (Inl e, s1, w1)
                  | (Inr u, s1, w1) \<Rightarrow>
                      (Inr (), s1, w1\<lparr>stdout := stdout w1 @ [''Refilling shoe...'']\<rparr>))
            else (Inr (), s, w)) of
        (Inl e, s1, w1) \<Rightarrow> (Inl e, s1, w1)
      | (Inr u, s1, w1) \<Rightarrow>
          (case pop (shoe_cards s1) of
             Inl e \<Rightarrow> (Inl e, s1, w1)
           | Inr (c, rest) \<Rightarrow> (Inr c, s1\<lparr>shoe_cards := rest\<rparr>, w1)))"

fun draw_loop :: "nat \<Rightarrow> card list \<Rightarrow> shoe \<Rightarrow> world \<Rightarrow> (error + card list) \<times> shoe \<times> world" where
  "draw_loop 0 cards_drawn s w = (Inr cards_drawn, s, w)"
| "draw_loop (Suc n) cards_drawn s w =
     (case draw_step s w of
        (Inl e, s1, w1) \<Rightarrow> (Inl e, s1, w1)
      | (Inr c, s1, w1) \<Rightarrow> draw_loop n (cards_drawn @ [c]) s1 w1)"

definition draw_cards :: "shoe \<Rightarrow> int \<Rightarrow> world \<Rightarrow> (error + card list) \<times> shoe \<times> world" where
  "draw_cards s num_cards w = draw_loop (nat num_cards) [] s w"

section \<open>The game\<close>

text \<open>
  \<^verbatim>\<open>Game\<close> holds the running flag, the two hands (\<^verbatim>\<open>None\<close> before the first deal), the
  shoe and the number of decks it was created with. Its \<^verbatim>\<open>_players\<close> list is only used
  by \<^verbatim>\<open>Table\<close>. Every method returns its result (or the exception it raises) together
  with the object after the call.
\<close>

record game =
  game_running :: bool
  punto :: "hand option"
  banco :: "hand option"
  shoe :: shoe
  game_num_decks :: pyval

definition create_shoe :: "game \<Rightarrow> pyval \<Rightarrow> world \<Rightarrow> (error + unit) \<times> game \<times> world" where
  "create_shoe g nd w =
     (case Shoe_init nd w of
        (Inl e, w') \<Rightarrow> (Inl e, g, w')
      | (Inr s, w') \<Rightarrow> (Inr (), g\<lparr>shoe := s, game_num_decks := nd\<rparr>, w'))"

definition Game_init :: "pyval \<Rightarrow> world \<Rightarrow> (error + game) \<times> world" where
  "Game_init nd w =
     (case Shoe_init nd w of
        (Inl e, w') \<Rightarrow> (Inl e, w')
      | (Inr s, w') \<Rightarrow>
          (Inr \<lparr>game_running = False, punto = None, banco = None, shoe = s,
                game_num_decks = nd\<rparr>, w'))"

definition deal_hands :: "game \<Rightarrow> world \<Rightarrow> (error + unit) \<times> game \<times> world" where
  "deal_hands g w =
     (if game_running g then (Inl (GameError ''Game is running''), g, w)
      else case draw_cards (shoe g) 2 w of
        (Inl e, s1, w1) \<Rightarrow> (Inl e, g\<lparr>shoe := s1\<rparr>, w1)
      | (Inr cs1, s1, w1) \<Rightarrow>
          (case Punto_init (map PCard cs1) of
             Inl e \<Rightarrow> (Inl e, g\<lparr>shoe := s1\<rparr>, w1)
           | Inr p \<Rightarrow>
               (case draw_cards s1 2 w1 of
                  (Inl e, s2, w2) \<Rightarrow> (Inl e, g\<lparr>punto := Some p, shoe := s2\<rparr>, w2)
                | (Inr cs2, s2, w2) \<Rightarrow>
                    (case Banco_init (map PCard cs2) of
                       Inl e \<Rightarrow> (Inl e, g\<lparr>punto := Some p, shoe := s2\<rparr>, w2)
                     | Inr b \<Rightarrow>
                         (Inr (), g\<lparr>punto := Some p, banco := Some b, shoe := s2,
                                   game_running := True\<rparr>, w2)))))"

definition none_has_no :: "string \<Rightarrow> error" where
  "none_has_no attr =
     AttributeError (CHR 0x27 # ''NoneType'' @ CHR 0x27 # '' object has no attribute '' @
                     CHR 0x27 # attr @ [CHR 0x27])"

definition is_natural :: "game \<Rightarrow> (error + bool) \<times> game" where
  "is_natural g =
     (if \<not> game_running g then (Inl (GameError ''Game is not running.''), g)
      else case (case punto g of
                   None \<Rightarrow> Inl (none_has_no ''is_natural'')
                 | Some p \<Rightarrow>
                     if Hand_is_natural p then Inr True
                     else (case banco g of
                             None \<Rightarrow> Inl (none_has_no ''is_natural'')
                           | Some b \<Rightarrow> Inr (Hand_is_natural b))) of
        Inl e \<Rightarrow> (Inl e, g)
      | Inr natural \<Rightarrow>
          (Inr natural, if natural then g\<lparr>game_running := False\<rparr> else g))"

text \<open>\<^verbatim>\<open>hand.cards[2]\<close>.\<close>

definition third_of :: "hand \<Rightarrow> error + card" where
  "third_of h =
     (if 2 < length (hand_cards h) then Inr (hand_cards h ! 2)
      else Inl (IndexError ''list index out of range''))"

text \<open>
  The two statements that \<^verbatim>\<open>draw_thirds\<close> runs for a hand that draws:
  \<^verbatim>\<open>hand.add_cards(self._shoe.draw_cards(1))\<close> and the record
  \<^verbatim>\<open>[name, hand.cards[2].__str__()]\<close> appended to \<^verbatim>\<open>third_draws\<close>.
\<close>

definition take_third ::
  "string \<Rightarrow> hand \<Rightarrow> shoe \<Rightarrow> world \<Rightarrow> (error + string list) \<times> hand \<times> shoe \<times> world" where
  "take_third name h s w =
     (case draw_cards s 1 w of
        (Inl e, s1, w1) \<Rightarrow> (Inl e, h, s1, w1)
      | (Inr cs, s1, w1) \<Rightarrow>
          (case add_cards h (map PCard cs) of
             (Inl e, h1) \<Rightarrow> (Inl e, h1, s1, w1)
           | (Inr u, h1) \<Rightarrow>
               (case third_of h1 of
                  Inl e \<Rightarrow> (Inl e, h1, s1, w1)
                | Inr c \<Rightarrow> (Inr [name, Card_str c], h1, s1, w1))))"

definition natural_message :: string where
  "natural_message = ''Can't draw third cards when there is a natural.''"

definition draw_thirds :: "game \<Rightarrow> world \<Rightarrow> (error + string list list) \<times> game \<times> world" where
  "draw_thirds g w =
     (if \<not> game_running g then (Inl (GameError ''Game is not running.''), g, w)
      else case is_natural g of
        (Inl e, g1) \<Rightarrow> (Inl e, g1, w)
      | (Inr True, g1) \<Rightarrow> (Inl (GameError natural_message), g1, w)
      | (Inr False, g1) \<Rightarrow>
          (case punto g1 of
             None \<Rightarrow> (Inl (none_has_no ''draw_third''), g1, w)
           | Some p \<Rightarrow>
               if Punto_draw_third p then
                 (case take_third ''punto'' p (shoe g1) w of
                    (Inl e, p1, s1, w1) \<Rightarrow> (Inl e, g1\<lparr>punto := Some p1, shoe := s1\<rparr>, w1)
                  | (Inr rec1, p1, s1, w1) \<Rightarrow>
                      (case banco g1 of
                         None \<Rightarrow>
                           (Inl (none_has_no ''draw_third''),
                            g1\<lparr>punto := Some p1, shoe := s1\<rparr>, w1)
                       | Some b \<Rightarrow>
                           (case third_of p1 of
                              Inl e \<Rightarrow> (Inl e, g1\<lparr>punto := Some p1, shoe := s1\<rparr>, w1)
                            | Inr c3 \<Rightarrow>
                                (case Banco_draw_third b (PCard c3) of
                                   Inl e \<Rightarrow> (Inl e, g1\<lparr>punto := Some p1, shoe := s1\<rparr>, w1)
                                 | Inr True \<Rightarrow>
                                     (case take_third ''banco'' b s1 w1 of
                                        (Inl e, b1, s2, w2) \<Rightarrow>
                                          (Inl e, g1\<lparr>punto := Some p1, banco := Some b1,
                                                     shoe := s2\<rparr>, w2)
                                      | (Inr rec2, b1, s2, w2) \<Rightarrow>
                                          (Inr [rec1, rec2],
                                           g1\<lparr>punto := Some p1, banco := Some b1, shoe := s2,
                                              game_running := False\<rparr>, w2))
                                 | Inr False \<Rightarrow>
                                     (Inr [rec1],
                                      g1\<lparr>punto := Some p1, shoe := s1,
                                         game_running := False\<rparr>, w1)))))
               else
                 (case banco g1 of
                    None \<Rightarrow> (Inl (none_has_no ''draw_third''), g1, w)
                  | Some b \<Rightarrow>
                      (case Banco_draw_third b PNone of
                         Inl e \<Rightarrow> (Inl e, g1, w)
                       | Inr True \<Rightarrow>
                           (case take_third ''banco'' b (shoe g1) w of
                              (Inl e, b1, s1, w1) \<Rightarrow>
                                (Inl e, g1\<lparr>banco := Some b1, shoe := s1\<rparr>, w1)
                            | (Inr rec1, b1, s1, w1) \<Rightarrow>
                                (Inr [rec1],
                                 g1\<lparr>banco := Some b1, shoe := s1, game_running := False\<rparr>,
                                 w1))
                       | Inr False \<Rightarrow> (Inr [], g1\<lparr>game_running := False\<rparr>, w)))))"

definition game_result :: "game \<Rightarrow> (error + string) \<times> game" where
  "game_result g =
     (if game_running g then (Inl (GameError ''Game is running.''), g)
      else case punto g of
        None \<Rightarrow> (Inl (none_has_no ''value''), g)
      | Some p \<Rightarrow>
          (case banco g of
             None \<Rightarrow> (Inl (none_has_no ''value''), g)
           | Some b \<Rightarrow>
               if hand_value p > hand_value b then (Inr ''punto'', g)
               else if hand_value p < hand_value b then (Inr ''banco'', g)
               else (Inr ''tie'', g)))"

section \<open>Example cards, hands and games\<close>

definition hearts :: "int \<Rightarrow> card" where
  "hearts n = \<lparr>rank = RankInt n, suit = ''hearts''\<rparr>"

definition king_of_spades :: card where
  "king_of_spades = \<lparr>rank = RankStr ''king'', suit = ''spades''\<rparr>"

text \<open>A two-card hand of value \<open>n\<close>, for \<open>n\<close> from 2 to 9.\<close>

definition two_cards :: "int \<Rightarrow> hand" where
  "two_cards n = \<lparr>hand_cards = [hearts n, king_of_spades]\<rparr>"

definition three_cards :: hand where
  "three_cards = \<lparr>hand_cards = [hearts 2, king_of_spades, hearts 3]\<rparr>"

text \<open>
  The 52 cards of one deck, in the order \<^verbatim>\<open>add_decks\<close> appends them, and the
  composition of a shoe of \<open>d\<close> decks: \<open>d\<close> times 52 cards, each pair of a rank and a
  suit \<open>d\<close> times.
\<close>

definition full_deck :: "card list" where
  "full_deck = concat (map (\<lambda>su. map (\<lambda>r. \<lparr>rank = r, suit = su\<rparr>) RANKS) SUITS)"

definition full_shoe :: "int \<Rightarrow> card list \<Rightarrow> bool" where
  "full_shoe d cs =
     (length cs = nat d * 52
      \<and> (\<forall>r \<in> set RANKS. \<forall>su \<in> set SUITS. count_list cs \<lparr>rank = r, suit = su\<rparr> = nat d))"

text \<open>
  The number of refills while \<open>n\<close> cards are drawn from a shoe that holds \<open>c\<close> cards
  and that a refill brings to \<open>D\<close> cards: none when the cards present suffice, and
  otherwise one for each started run of \<open>D\<close> cards beyond them.
\<close>

definition refills :: "nat \<Rightarrow> nat \<Rightarrow> nat \<Rightarrow> nat" where
  "refills c D n = (if n \<le> c then 0 else (n - c + D - 1) div D)"

definition world0 :: world where
  "world0 = \<lparr>rng = [3, 1, 4, 1, 5, 9, 2, 6], stdout = []\<rparr>"

definition empty_shoe :: shoe where
  "empty_shoe = \<lparr>num_decks = 1, shoe_cards = []\<rparr>"

text \<open>
  A shoe of one deck with four cards left (the last one is drawn first) and one with
  a single card left; a game that has not dealt yet, the game after its deal, and a
  running game with two given hands.
\<close>

definition small_shoe :: shoe where
  "small_shoe =
     \<lparr>num_decks = 1, shoe_cards = [hearts 2, hearts 3, king_of_spades, hearts 9]\<rparr>"

definition one_card_shoe :: shoe where
  "one_card_shoe = \<lparr>num_decks = 1, shoe_cards = [hearts 5]\<rparr>"

definition new_game :: game where
  "new_game =
     \<lparr>game_running = False, punto = None, banco = None, shoe = small_shoe,
      game_num_decks = PInt 1\<rparr>"

definition dealt_game :: game where
  "dealt_game =
     \<lparr>game_running = True,
      punto = Some \<lparr>hand_cards = [hearts 9, king_of_spades]\<rparr>,
      banco = Some \<lparr>hand_cards = [hearts 3, hearts 2]\<rparr>,
      shoe = \<lparr>num_decks = 1, shoe_cards = []\<rparr>,
      game_num_decks = PInt 1\<rparr>"

definition game_with :: "hand \<Rightarrow> hand \<Rightarrow> game" where
  "game_with p b =
     \<lparr>game_running = True, punto = Some p, banco = Some b, shoe = small_shoe,
      game_num_decks = PInt 1\<rparr>"

section \<open>Hand values\<close>

lemma card_value_range: "0 \<le> card_value c \<and> card_value c \<le> 9"
  by (simp add: card_value_def split: rank.split)

lemma foldl_Card_add:
  "foldl (\<lambda>acc c. Card_add c acc) (a mod 10) cs = (a + sum_list (map card_value cs)) mod 10"
proof (induction cs arbitrary: a)
  case Nil
  then show ?case by simp
next
  case (Cons c cs)
  have "foldl (\<lambda>acc c. Card_add c acc) (a mod 10) (c # cs)
        = foldl (\<lambda>acc c. Card_add c acc) ((card_value c + a) mod 10) cs"
    by (simp add: Card_add_def mod_add_right_eq)
  also have "\<dots> = (card_value c + a + sum_list (map card_value cs)) mod 10"
    by (rule Cons.IH)
  finally show ?case by (simp add: ac_simps)
qed

lemma hand_value_sum: "hand_value h = sum_list (map card_value (hand_cards h)) mod 10"
  using foldl_Card_add [of 0 "hand_cards h"] by (simp add: hand_value_def)

lemma hand_value_range: "0 \<le> hand_value h \<and> hand_value h \<le> 9"
  by (simp add: hand_value_sum)

lemma hand_value_two_cards: "2 \<le> n \<Longrightarrow> n \<le> 9 \<Longrightarrow> hand_value (two_cards n) = n"
  by (simp add: hand_value_sum two_cards_def hearts_def king_of_spades_def card_value_def)

lemma length_two_cards: "length (hand_cards (two_cards n)) = 2"
  by (simp add: two_cards_def)

lemma card_value_hearts: "2 \<le> n \<Longrightarrow> n \<le> 9 \<Longrightarrow> card_value (hearts n) = n"
  by (simp add: hearts_def card_value_def)

text \<open>
  Claim C8. The value of a hand is the sum of the point values of its cards modulo 10,
  so it lies between 0 and 9; this holds for every list of cards, the hands of 2 and
  of 3 cards among them. The point value of a card is 1 for the ace, the rank for the
  ranks 2 to 9, and 0 for 10, jack, queen and king, whatever the suit.
\<close>

theorem hand_value_mod10:
  "hand_value h = sum_list (map card_value (hand_cards h)) mod 10
   \<and> 0 \<le> hand_value h \<and> hand_value h \<le> 9
   \<and> card_value \<lparr>rank = RankStr ''ace'', suit = s\<rparr> = 1
   \<and> card_value \<lparr>rank = RankInt 2, suit = s\<rparr> = 2
   \<and> card_value \<lparr>rank = RankInt 3, suit = s\<rparr> = 3
   \<and> card_value \<lparr>rank = RankInt 4, suit = s\<rparr> = 4
   \<and> card_value \<lparr>rank = RankInt 5, suit = s\<rparr> = 5
   \<and> card_value \<lparr>rank = RankInt 6, suit = s\<rparr> = 6
   \<and> card_value \<lparr>rank = RankInt 7, suit = s\<rparr> = 7
   \<and> card_value \<lparr>rank = RankInt 8, suit = s\<rparr> = 8
   \<and> card_value \<lparr>rank = RankInt 9, suit = s\<rparr> = 9
   \<and> card_value \<lparr>rank = RankInt 10, suit = s\<rparr> = 0
   \<and> card_value \<lparr>rank = RankStr ''jack'', suit = s\<rparr> = 0
   \<and> card_value \<lparr>rank = RankStr ''queen'', suit = s\<rparr> = 0
   \<and> card_value \<lparr>rank = RankStr ''king'', suit = s\<rparr> = 0"
  by (simp add: hand_value_sum card_value_def)

section \<open>The third-card predicates\<close>

text \<open>
  Claim C7. \<^verbatim>\<open>Punto.draw_third()\<close> is true exactly when the hand has 2 cards and its
  value is between 0 and 5; so it is false for the two-card values 6 to 9 and for
  every hand of 3 cards.
\<close>

theorem punto_draw_third_iff:
  "Punto_draw_third h = (length (hand_cards h) = 2 \<and> hand_value h \<in> {0..5})"
  by (simp add: Punto_draw_third_def)

lemma third_card_rules_simps:
  "third_card_rules 3 = Some [0, 1, 2, 3, 4, 5, 6, 7, 9]"
  "third_card_rules 4 = Some [2, 3, 4, 5, 6, 7]"
  "third_card_rules 5 = Some [4, 5, 6, 7]"
  "third_card_rules 6 = Some [6, 7]"
  by (simp_all add: third_card_rules_def)

lemma card_value_cases: "card_value c \<in> {0, 1, 2, 3, 4, 5, 6, 7, 8, 9}"
proof -
  have "0 \<le> card_value c \<and> card_value c \<le> 9" by (rule card_value_range)
  then show ?thesis by simp arith
qed

lemma banco_third_present:
  assumes "length (hand_cards b) = 2"
  shows "(hand_value b \<le> 2 \<longrightarrow> Banco_draw_third b (PCard c) = Inr True)
   \<and> (hand_value b = 3 \<longrightarrow> Banco_draw_third b (PCard c) = Inr (card_value c \<noteq> 8))
   \<and> (hand_value b = 4 \<longrightarrow>
        Banco_draw_third b (PCard c) = Inr (card_value c \<in> {2, 3, 4, 5, 6, 7}))
   \<and> (hand_value b = 5 \<longrightarrow>
        Banco_draw_third b (PCard c) = Inr (card_value c \<in> {4, 5, 6, 7}))
   \<and> (hand_value b = 6 \<longrightarrow> Banco_draw_third b (PCard c) = Inr (card_value c \<in> {6, 7}))
   \<and> (hand_value b = 7 \<longrightarrow> Banco_draw_third b (PCard c) = Inr False)"
  using assms hand_value_range [of b] card_value_cases [of c]
  by (auto simp add: Banco_draw_third_def third_card_rules_simps)

text \<open>
  Claim C3. For a Banco hand of 2 cards and a third card of Punto, \<^verbatim>\<open>Banco.draw_third\<close>
  follows the table: value 0 to 2 draws; value 3 draws unless the third card counts 8;
  value 4 draws iff it counts 2 to 7; value 5 iff 4 to 7; value 6 iff 6 or 7; value 7
  stands. Without a third card of Punto it draws iff the value is between 0 and 5. A
  Banco hand of 3 cards never draws, whatever the argument.
\<close>

theorem banco_draw_third_table:
  "(length (hand_cards b) = 2 \<longrightarrow>
      (hand_value b \<in> {0, 1, 2} \<longrightarrow> Banco_draw_third b (PCard c) = Inr True)
    \<and> (hand_value b = 3 \<longrightarrow> Banco_draw_third b (PCard c) = Inr (card_value c \<noteq> 8))
    \<and> (hand_value b = 4 \<longrightarrow>
         Banco_draw_third b (PCard c) = Inr (card_value c \<in> {2, 3, 4, 5, 6, 7}))
    \<and> (hand_value b = 5 \<longrightarrow>
         Banco_draw_third b (PCard c) = Inr (card_value c \<in> {4, 5, 6, 7}))
    \<and> (hand_value b = 6 \<longrightarrow> Banco_draw_third b (PCard c) = Inr (card_value c \<in> {6, 7}))
    \<and> (hand_value b = 7 \<longrightarrow> Banco_draw_third b (PCard c) = Inr False)
    \<and> Banco_draw_third b PNone = Inr (hand_value b \<in> {0..5}))
   \<and> (length (hand_cards b) = 3 \<longrightarrow> Banco_draw_third b x = Inr False)"
proof -
  have absent: "length (hand_cards b) = 2 \<Longrightarrow>
      Banco_draw_third b PNone = Inr (hand_value b \<in> {0..5})"
    by (simp add: Banco_draw_third_def)
  have three: "length (hand_cards b) = 3 \<Longrightarrow> Banco_draw_third b x = Inr False"
    by (simp add: Banco_draw_third_def)
  show ?thesis
    using banco_third_present [of b c] absent three by simp
qed

text \<open>
  The table at one hand for each row: each row's condition holds at its hand, and the
  theorem gives the decision there.
\<close>

theorem banco_draw_third_table_witness:
  "length (hand_cards (two_cards 2)) = 2 \<and> hand_value (two_cards 2) \<in> {0, 1, 2}
     \<and> Banco_draw_third (two_cards 2) (PCard (hearts 8)) = Inr True
   \<and> hand_value (two_cards 3) = 3
     \<and> Banco_draw_third (two_cards 3) (PCard (hearts 8)) = Inr False
     \<and> Banco_draw_third (two_cards 3) (PCard (hearts 9)) = Inr True
   \<and> hand_value (two_cards 4) = 4
     \<and> Banco_draw_third (two_cards 4) (PCard (hearts 2)) = Inr True
     \<and> Banco_draw_third (two_cards 4) (PCard (hearts 8)) = Inr False
   \<and> hand_value (two_cards 5) = 5
     \<and> Banco_draw_third (two_cards 5) (PCard (hearts 4)) = Inr True
     \<and> Banco_draw_third (two_cards 5) (PCard (hearts 3)) = Inr False
     \<and> Banco_draw_third (two_cards 5) PNone = Inr True
   \<and> hand_value (two_cards 6) = 6
     \<and> Banco_draw_third (two_cards 6) (PCard (hearts 6)) = Inr True
     \<and> Banco_draw_third (two_cards 6) (PCard (hearts 5)) = Inr False
     \<and> Banco_draw_third (two_cards 6) PNone = Inr False
   \<and> hand_value (two_cards 7) = 7
     \<and> Banco_draw_third (two_cards 7) (PCard (hearts 7)) = Inr False
   \<and> length (hand_cards three_cards) = 3
     \<and> Banco_draw_third three_cards (PCard (hearts 2)) = Inr False"
proof -
  note v = hand_value_two_cards length_two_cards card_value_hearts
  have r2: "Banco_draw_third (two_cards 2) (PCard (hearts 8)) = Inr True"
    using banco_draw_third_table [of "two_cards 2" "hearts 8" PNone] by (simp add: v)
  have r3: "Banco_draw_third (two_cards 3) (PCard (hearts 8)) = Inr False"
    using banco_draw_third_table [of "two_cards 3" "hearts 8" PNone] by (simp add: v)
  have r3': "Banco_draw_third (two_cards 3) (PCard (hearts 9)) = Inr True"
    using banco_draw_third_table [of "two_cards 3" "hearts 9" PNone] by (simp add: v)
  have r4: "Banco_draw_third (two_cards 4) (PCard (hearts 2)) = Inr True"
    using banco_draw_third_table [of "two_cards 4" "hearts 2" PNone] by (simp add: v)
  have r4': "Banco_draw_third (two_cards 4) (PCard (hearts 8)) = Inr False"
    using banco_draw_third_table [of "two_cards 4" "hearts 8" PNone] by (simp add: v)
  have r5: "Banco_draw_third (two_cards 5) (PCard (hearts 4)) = Inr True"
    using banco_draw_third_table [of "two_cards 5" "hearts 4" PNone] by (simp add: v)
  have r5': "Banco_draw_third (two_cards 5) (PCard (hearts 3)) = Inr False"
    using banco_draw_third_table [of "two_cards 5" "hearts 3" PNone] by (simp add: v)
  have n5: "Banco_draw_third (two_cards 5) PNone = Inr True"
    using banco_draw_third_table [of "two_cards 5" "hearts 3" PNone] by (simp add: v)
  have r6: "Banco_draw_third (two_cards 6) (PCard (hearts 6)) = Inr True"
    using banco_draw_third_table [of "two_cards 6" "hearts 6" PNone] by (simp add: v)
  have r6': "Banco_draw_third (two_cards 6) (PCard (hearts 5)) = Inr False"
    using banco_draw_third_table [of "two_cards 6" "hearts 5" PNone] by (simp add: v)
  have n6: "Banco_draw_third (two_cards 6) PNone = Inr False"
    using banco_draw_third_table [of "two_cards 6" "hearts 5" PNone] by (simp add: v)
  have r7: "Banco_draw_third (two_cards 7) (PCard (hearts 7)) = Inr False"
    using banco_draw_third_table [of "two_cards 7" "hearts 7" PNone] by (simp add: v)
  have l3: "length (hand_cards three_cards) = 3"
    by (simp add: three_cards_def)
  have t3: "Banco_draw_third three_cards (PCard (hearts 2)) = Inr False"
    using banco_draw_third_table [of three_cards "hearts 2" "PCard (hearts 2)"] l3 by simp
  show ?thesis
    by (simp add: v r2 r3 r3' r4 r4' r5 r5' n5 r6 r6' n6 r7 l3 t3)
qed

section \<open>Constructing a hand\<close>

lemma add_cards_PCard:
  "add_cards h (map PCard cs) = (Inr (), h\<lparr>hand_cards := hand_cards h @ cs\<rparr>)"
  by (induction cs arbitrary: h) simp_all

text \<open>
  Claim C2, as the code has it. \<^verbatim>\<open>Hand.__init__\<close> appends the cards it is given and
  checks no size: the construction of a Punto or a Banco hand from a list of cards
  succeeds for every length of the list, the lists of exactly 2 cards among them, and
  the hand holds the cards in their order.
\<close>

theorem hand_init_any_length:
  "Punto_init (map PCard cs) = Inr \<lparr>hand_cards = cs\<rparr>
   \<and> Banco_init (map PCard cs) = Inr \<lparr>hand_cards = cs\<rparr>"
  by (simp add: Punto_init_def Banco_init_def Hand_init_def add_cards_PCard)

text \<open>
  Claim C2 as stated fails: the empty list has not 2 elements, and both constructors
  return a hand for it, not an error.
\<close>

theorem hand_init_size_counterexample:
  "length ([] :: pyval list) \<noteq> 2
   \<and> Punto_init [] = Inr \<lparr>hand_cards = []\<rparr>
   \<and> Banco_init [] = Inr \<lparr>hand_cards = []\<rparr>"
  by (simp add: Punto_init_def Banco_init_def Hand_init_def)

section \<open>The composition of the shoe\<close>

lemma randbelow_less: "0 < n \<Longrightarrow> fst (randbelow n g) < n"
  by (simp add: randbelow_def split: list.split)

lemma shuffle_loop_mset:
  "i < length xs \<Longrightarrow> mset (fst (shuffle_loop i xs g)) = mset xs"
proof (induction i arbitrary: xs g)
  case 0
  then show ?case by simp
next
  case (Suc i)
  obtain j g' where r: "randbelow (Suc i + 1) g = (j, g')"
    by (cases "randbelow (Suc i + 1) g")
  have "fst (randbelow (Suc i + 1) g) < Suc i + 1"
    by (rule randbelow_less) simp
  with r Suc.prems have j: "j < length xs" by simp
  let ?ys = "xs[Suc i := xs ! j, j := xs ! Suc i]"
  have "mset ?ys = mset xs"
    using mset_swap [of j xs "Suc i"] j Suc.prems by simp
  moreover have "mset (fst (shuffle_loop i ?ys g')) = mset ?ys"
    using Suc.prems by (intro Suc.IH) simp
  ultimately show ?case using r by simp
qed

lemma shuffle_mset: "mset (fst (shuffle xs g)) = mset xs"
proof (cases xs)
  case Nil
  then show ?thesis by (simp add: shuffle_def)
next
  case (Cons a as)
  then show ?thesis by (simp add: shuffle_def shuffle_loop_mset)
qed

lemma Card_init_valid:
  "r \<in> set RANKS \<Longrightarrow> su \<in> set SUITS \<Longrightarrow> Card_init r su = Inr \<lparr>rank = r, suit = su\<rparr>"
  by (simp add: Card_init_def)

lemma deck_cards_full_deck: "deck_cards = map Inr full_deck"
  by (simp add: deck_cards_def full_deck_def map_concat comp_def Card_init_valid cong: map_cong)

lemma append_new_Inr: "append_new cs (map Inr xs) = (Inr (), cs @ xs)"
  by (induction xs arbitrary: cs) simp_all

lemma concat_replicate_map:
  "concat (replicate n (map f xs)) = map f (concat (replicate n xs))"
  by (induction n) simp_all

lemma length_full_deck: "length full_deck = 52"
  by (simp add: full_deck_def RANKS_def SUITS_def)

lemma distinct_RANKS: "distinct RANKS \<and> length RANKS = 13"
  by (simp add: RANKS_def)

lemma distinct_SUITS: "distinct SUITS \<and> length SUITS = 4"
  by (simp add: SUITS_def)

lemma count_list_row:
  "count_list (map (\<lambda>r. \<lparr>rank = r, suit = su\<rparr>) rs) \<lparr>rank = r0, suit = s0\<rparr>
   = (if su = s0 then count_list rs r0 else 0)"
  by (induction rs) auto

lemma count_list_grid:
  "count_list (concat (map (\<lambda>su. map (\<lambda>r. \<lparr>rank = r, suit = su\<rparr>) rs) ss))
     \<lparr>rank = r0, suit = s0\<rparr> = count_list ss s0 * count_list rs r0"
  by (induction ss) (simp_all add: count_list_row)

lemma count_list_RANKS: "r \<in> set RANKS \<Longrightarrow> count_list RANKS r = 1"
  by (auto simp add: RANKS_def)

lemma count_list_SUITS: "su \<in> set SUITS \<Longrightarrow> count_list SUITS su = 1"
  by (auto simp add: SUITS_def)

lemma count_list_full_deck:
  "r \<in> set RANKS \<Longrightarrow> su \<in> set SUITS \<Longrightarrow> count_list full_deck \<lparr>rank = r, suit = su\<rparr> = 1"
  by (simp add: full_deck_def count_list_grid count_list_RANKS count_list_SUITS)

lemma count_list_concat_replicate:
  "count_list (concat (replicate n xs)) x = n * count_list xs x"
  by (induction n) simp_all

lemma length_concat_replicate: "length (concat (replicate n xs)) = n * length xs"
  by (induction n) simp_all

lemma count_list_mset_eq: "mset xs = mset ys \<Longrightarrow> count_list xs x = count_list ys x"
  by (metis count_mset)

lemma full_shoe_decks:
  "mset cs = mset (concat (replicate (nat d) full_deck)) \<Longrightarrow> full_shoe d cs"
proof -
  assume m: "mset cs = mset (concat (replicate (nat d) full_deck))"
  have "length cs = length (concat (replicate (nat d) full_deck))"
    using m by (rule mset_eq_length)
  then have l: "length cs = nat d * 52"
    by (simp add: length_concat_replicate length_full_deck)
  have "count_list cs \<lparr>rank = r, suit = su\<rparr> = nat d"
    if "r \<in> set RANKS" "su \<in> set SUITS" for r su
    using that count_list_mset_eq [OF m, of "\<lparr>rank = r, suit = su\<rparr>"]
    by (simp add: count_list_concat_replicate count_list_full_deck)
  with l show ?thesis by (simp add: full_shoe_def)
qed

lemma add_decks_any:
  "\<exists>cs g'. add_decks s arg w = (Inr (), s\<lparr>shoe_cards := cs\<rparr>, w\<lparr>rng := g'\<rparr>)
     \<and> mset cs = mset (shoe_cards s)
         + mset (concat (replicate
             (nat (case arg of None \<Rightarrow> num_decks s
                   | Some k \<Rightarrow> if k = 0 then num_decks s else k)) full_deck))"
proof -
  let ?n = "case arg of None \<Rightarrow> num_decks s | Some k \<Rightarrow> if k = 0 then num_decks s else k"
  let ?new = "shoe_cards s @ concat (replicate (nat ?n) full_deck)"
  obtain cs g' where sh: "shuffle ?new (rng w) = (cs, g')"
    by (cases "shuffle ?new (rng w)")
  have "mset cs = mset ?new"
    using shuffle_mset [of ?new "rng w"] sh by simp
  moreover have "add_decks s arg w = (Inr (), s\<lparr>shoe_cards := cs\<rparr>, w\<lparr>rng := g'\<rparr>)"
    using sh by (simp add: add_decks_def deck_cards_full_deck concat_replicate_map append_new_Inr)
  ultimately show ?thesis by auto
qed

lemma add_decks_default:
  "\<exists>cs g'. add_decks s None w = (Inr (), s\<lparr>shoe_cards := cs\<rparr>, w\<lparr>rng := g'\<rparr>)
     \<and> mset cs = mset (shoe_cards s) + mset (concat (replicate (nat (num_decks s)) full_deck))"
proof -
  let ?new = "shoe_cards s @ concat (replicate (nat (num_decks s)) full_deck)"
  obtain cs g' where sh: "shuffle ?new (rng w) = (cs, g')"
    by (cases "shuffle ?new (rng w)")
  have "mset cs = mset ?new"
    using shuffle_mset [of ?new "rng w"] sh by simp
  moreover have "add_decks s None w = (Inr (), s\<lparr>shoe_cards := cs\<rparr>, w\<lparr>rng := g'\<rparr>)"
    using sh by (simp add: add_decks_def deck_cards_full_deck concat_replicate_map append_new_Inr)
  ultimately show ?thesis by auto
qed



text \<open>
  Claim C5, as the code has it. For a number of decks \<open>d\<close> of at least 1, the shoe that
  \<^verbatim>\<open>Shoe(d)\<close> constructs holds \<open>d\<close> times 52 cards, each of the 52 pairs of a rank and a
  suit exactly \<open>d\<close> times: it is a permutation of \<open>d\<close> copies of the deck. A refill,
  \<^verbatim>\<open>add_decks(k)\<close>, adds \<open>k\<close> times 52 cards, each pair \<open>k\<close> times, to the cards the shoe
  holds and shuffles them all, where \<open>k\<close> is \<open>d\<close> when the argument is absent or 0. So
  the refill of an empty shoe by its own number of decks, the one \<^verbatim>\<open>draw_cards\<close>
  performs, leaves the composition of a new shoe. The 13 ranks are distinct, and so
  are the 4 suits.
\<close>

theorem shoe_composition:
  assumes "1 \<le> d"
  shows "(\<exists>s w'. Shoe_init (PInt d) w = (Inr s, w') \<and> num_decks s = d
            \<and> full_shoe d (shoe_cards s)
            \<and> mset (shoe_cards s) = mset (concat (replicate (nat d) full_deck)))
       \<and> (num_decks t = d \<longrightarrow>
            (\<exists>s' w'. add_decks t arg w = (Inr (), s', w') \<and> num_decks s' = d
               \<and> mset (shoe_cards s') =
                   mset (shoe_cards t)
                   + mset (concat (replicate
                       (nat (case arg of None \<Rightarrow> d | Some k \<Rightarrow> if k = 0 then d else k))
                       full_deck))
               \<and> (shoe_cards t = [] \<and> (arg = None \<or> arg = Some 0 \<or> arg = Some d) \<longrightarrow>
                    full_shoe d (shoe_cards s'))))
       \<and> distinct RANKS \<and> length RANKS = 13 \<and> distinct SUITS \<and> length SUITS = 4"
proof -
  have refill: "\<exists>s' w'. add_decks s a w = (Inr (), s', w') \<and> num_decks s' = d
               \<and> mset (shoe_cards s') =
                   mset (shoe_cards s)
                   + mset (concat (replicate
                       (nat (case a of None \<Rightarrow> d | Some k \<Rightarrow> if k = 0 then d else k))
                       full_deck))
               \<and> (shoe_cards s = [] \<and> (a = None \<or> a = Some 0 \<or> a = Some d) \<longrightarrow>
                    full_shoe d (shoe_cards s'))"
    if nd: "num_decks s = d" for s a
  proof -
    obtain cs g' where a: "add_decks s a w = (Inr (), s\<lparr>shoe_cards := cs\<rparr>, w\<lparr>rng := g'\<rparr>)"
      and m: "mset cs = mset (shoe_cards s)
         + mset (concat (replicate
             (nat (case a of None \<Rightarrow> num_decks s
                   | Some k \<Rightarrow> if k = 0 then num_decks s else k)) full_deck))"
      using add_decks_any [of s a w] by blast
    from m nd have m': "mset cs = mset (shoe_cards s)
         + mset (concat (replicate
             (nat (case a of None \<Rightarrow> d | Some k \<Rightarrow> if k = 0 then d else k)) full_deck))"
      by (cases a) simp_all
    have "full_shoe d cs" if "shoe_cards s = []" "a = None \<or> a = Some 0 \<or> a = Some d"
    proof -
      from m' that have "mset cs = mset (concat (replicate (nat d) full_deck))" by auto
      then show ?thesis by (rule full_shoe_decks)
    qed
    with a m' nd show ?thesis by simp
  qed
  have init: "\<exists>s w'. Shoe_init (PInt d) w = (Inr s, w') \<and> num_decks s = d
            \<and> full_shoe d (shoe_cards s)
            \<and> mset (shoe_cards s) = mset (concat (replicate (nat d) full_deck))"
  proof -
    obtain s' w' where "add_decks \<lparr>num_decks = d, shoe_cards = []\<rparr> None w = (Inr (), s', w')"
      and "num_decks s' = d" and "full_shoe d (shoe_cards s')"
      and "mset (shoe_cards s') = mset (concat (replicate (nat d) full_deck))"
      using refill [of "\<lparr>num_decks = d, shoe_cards = []\<rparr>" None] by auto
    with assms show ?thesis by (simp add: Shoe_init_def)
  qed
  from init refill [of t arg] show ?thesis
    by (simp add: distinct_RANKS distinct_SUITS)
qed

text \<open>One deck: the constructed shoe and the refilled empty shoe.\<close>

theorem shoe_composition_witness:
  "(1::int) \<le> 1
   \<and> (\<exists>s w'. Shoe_init (PInt 1) world0 = (Inr s, w') \<and> num_decks s = 1
         \<and> full_shoe 1 (shoe_cards s))
   \<and> num_decks empty_shoe = 1 \<and> shoe_cards empty_shoe = []
   \<and> (\<exists>s' w'. add_decks empty_shoe None world0 = (Inr (), s', w') \<and> num_decks s' = 1
         \<and> full_shoe 1 (shoe_cards s'))"
proof -
  have e: "num_decks empty_shoe = 1 \<and> shoe_cards empty_shoe = []"
    by (simp add: empty_shoe_def)
  show ?thesis
    using shoe_composition [of 1 world0 empty_shoe None] e by auto
qed

text \<open>
  Claim C5 as stated fails: the refill of a shoe of one deck that still holds a card
  leaves 53 cards, not 52.
\<close>

theorem shoe_refill_counterexample:
  "num_decks one_card_shoe = 1
   \<and> fst (add_decks one_card_shoe None world0) = Inr ()
   \<and> num_decks (fst (snd (add_decks one_card_shoe None world0))) = 1
   \<and> length (shoe_cards (fst (snd (add_decks one_card_shoe None world0)))) = 53
   \<and> \<not> full_shoe 1 (shoe_cards (fst (snd (add_decks one_card_shoe None world0))))"
proof -
  obtain cs g' where a: "add_decks one_card_shoe None world0 =
        (Inr (), one_card_shoe\<lparr>shoe_cards := cs\<rparr>, world0\<lparr>rng := g'\<rparr>)"
    and m: "mset cs = mset (shoe_cards one_card_shoe)
         + mset (concat (replicate (nat (num_decks one_card_shoe)) full_deck))"
    using add_decks_default [of one_card_shoe world0] by blast
  have "mset cs = mset (hearts 5 # full_deck)"
    using m by (simp add: one_card_shoe_def)
  then have "length cs = length (hearts 5 # full_deck)"
    by (rule mset_eq_length)
  then have l: "length cs = 53" by (simp add: length_full_deck)
  then have "\<not> full_shoe 1 cs" by (simp add: full_shoe_def)
  with a l show ?thesis by (simp add: one_card_shoe_def)
qed

section \<open>Drawing from the shoe\<close>

lemma refills_empty: "0 < D \<Longrightarrow> refills 0 D (Suc n) = Suc (refills (D - 1) D n)"
proof -
  assume D: "0 < D"
  have "(Suc n + D - 1) div D = Suc (n div D)"
    using D by (simp add: div_add_self2)
  moreover have "n > D - 1 \<Longrightarrow> n - (D - 1) + D - 1 = n"
    using D by arith
  ultimately show ?thesis
    using D by (auto simp add: refills_def)
qed

lemma refills_nonempty: "0 < c \<Longrightarrow> refills c D (Suc n) = refills (c - 1) D n"
proof -
  assume c: "0 < c"
  then have "\<not> Suc n \<le> c \<Longrightarrow> Suc n - c = n - (c - 1)" by arith
  with c show ?thesis by (auto simp add: refills_def)
qed

lemma draw_step_nonempty:
  "shoe_cards s \<noteq> [] \<Longrightarrow>
   draw_step s w = (Inr (last (shoe_cards s)), s\<lparr>shoe_cards := butlast (shoe_cards s)\<rparr>, w)"
  by (simp add: draw_step_def pop_def)

lemma draw_step_empty:
  assumes "1 \<le> num_decks s" "shoe_cards s = []"
  shows "\<exists>c cs g'. draw_step s w =
           (Inr c, s\<lparr>shoe_cards := cs\<rparr>,
            w\<lparr>rng := g', stdout := stdout w @ [''Refilling shoe...'']\<rparr>)
         \<and> Suc (length cs) = nat (num_decks s) * 52
         \<and> mset (c # cs) = mset (concat (replicate (nat (num_decks s)) full_deck))"
proof -
  obtain cs g' where a: "add_decks s None w = (Inr (), s\<lparr>shoe_cards := cs\<rparr>, w\<lparr>rng := g'\<rparr>)"
    and m: "mset cs = mset (shoe_cards s) + mset (concat (replicate (nat (num_decks s)) full_deck))"
    using add_decks_default [of s w] by blast
  from m assms have m': "mset cs = mset (concat (replicate (nat (num_decks s)) full_deck))"
    by simp
  then have "length cs = length (concat (replicate (nat (num_decks s)) full_deck))"
    by (rule mset_eq_length)
  then have l: "length cs = nat (num_decks s) * 52"
    by (simp add: length_concat_replicate length_full_deck)
  with assms have ne: "cs \<noteq> []" by (cases cs) simp_all
  have "draw_step s w =
          (Inr (last cs), s\<lparr>shoe_cards := butlast cs\<rparr>,
           w\<lparr>rng := g', stdout := stdout w @ [''Refilling shoe...'']\<rparr>)"
    using a ne assms by (simp add: draw_step_def pop_def)
  moreover have "Suc (length (butlast cs)) = length cs"
    using ne by (cases cs rule: rev_cases) simp_all
  then have "Suc (length (butlast cs)) = nat (num_decks s) * 52"
    using l by (rule trans)
  moreover have "mset (last cs # butlast cs) = mset cs"
    using ne by (cases cs rule: rev_cases) simp_all
  then have "mset (last cs # butlast cs) = mset (concat (replicate (nat (num_decks s)) full_deck))"
    using m' by (rule trans)
  ultimately show ?thesis by blast
qed

lemma draw_loop_spec:
  assumes "1 \<le> num_decks s"
  shows "\<exists>cs s' w'. draw_loop n acc s w = (Inr (acc @ cs), s', w')
     \<and> length cs = n \<and> num_decks s' = num_decks s
     \<and> stdout w' = stdout w @
          replicate (refills (length (shoe_cards s)) (nat (num_decks s) * 52) n)
            ''Refilling shoe...''
     \<and> length (shoe_cards s') + n =
          length (shoe_cards s)
          + refills (length (shoe_cards s)) (nat (num_decks s) * 52) n * (nat (num_decks s) * 52)
     \<and> (n \<le> length (shoe_cards s) \<longrightarrow> shoe_cards s = shoe_cards s' @ rev cs \<and> w' = w)
     \<and> mset cs + mset (shoe_cards s') =
          mset (shoe_cards s)
          + repeat_mset (refills (length (shoe_cards s)) (nat (num_decks s) * 52) n)
              (mset (concat (replicate (nat (num_decks s)) full_deck)))"
  using assms
proof (induction n arbitrary: acc s w)
  case 0
  then show ?case by (simp add: refills_def)
next
  case (Suc n)
  define D where "D = nat (num_decks s) * 52"
  have Dpos: "0 < D" using Suc.prems by (simp add: D_def)
  define M where "M = mset (concat (replicate (nat (num_decks s)) full_deck))"
  show ?case
  proof (cases "shoe_cards s = []")
    case False
    define s1 where "s1 = s\<lparr>shoe_cards := butlast (shoe_cards s)\<rparr>"
    define c where "c = last (shoe_cards s)"
    have step: "draw_step s w = (Inr c, s1, w)"
      using False by (simp add: draw_step_nonempty s1_def c_def)
    have n1: "num_decks s1 = num_decks s" by (simp add: s1_def)
    have l1: "Suc (length (shoe_cards s1)) = length (shoe_cards s)"
      using False by (cases "shoe_cards s" rule: rev_cases) (simp_all add: s1_def)
    have split: "shoe_cards s = shoe_cards s1 @ [c]"
      using False by (simp add: s1_def c_def)
    from Suc.prems n1 have "1 \<le> num_decks s1" by simp
    from Suc.IH [OF this, of "acc @ [c]" w]
    obtain cs s' w' where
      r: "draw_loop n (acc @ [c]) s1 w = (Inr ((acc @ [c]) @ cs), s', w')"
      and len: "length cs = n" and nd: "num_decks s' = num_decks s1"
      and out: "stdout w' = stdout w @
          replicate (refills (length (shoe_cards s1)) (nat (num_decks s1) * 52) n)
            ''Refilling shoe...''"
      and cnt: "length (shoe_cards s') + n =
          length (shoe_cards s1)
          + refills (length (shoe_cards s1)) (nat (num_decks s1) * 52) n
            * (nat (num_decks s1) * 52)"
      and ex: "n \<le> length (shoe_cards s1) \<longrightarrow> shoe_cards s1 = shoe_cards s' @ rev cs \<and> w' = w"
      and ms: "mset cs + mset (shoe_cards s') =
          mset (shoe_cards s1)
          + repeat_mset (refills (length (shoe_cards s1)) (nat (num_decks s1) * 52) n)
              (mset (concat (replicate (nat (num_decks s1)) full_deck)))"
      by blast
    have pos: "0 < length (shoe_cards s)" using False by simp
    have l1': "length (shoe_cards s) - 1 = length (shoe_cards s1)" using l1 by arith
    have rf: "refills (length (shoe_cards s)) D (Suc n) = refills (length (shoe_cards s1)) D n"
      using refills_nonempty [OF pos, of D n] by (simp only: l1')
    have "draw_loop (Suc n) acc s w = (Inr (acc @ (c # cs)), s', w')"
      using step r by simp
    moreover have "length (c # cs) = Suc n" using len by simp
    moreover have "num_decks s' = num_decks s" using nd n1 by simp
    moreover have "stdout w' = stdout w @
          replicate (refills (length (shoe_cards s)) D (Suc n)) ''Refilling shoe...''"
      using out n1 rf by (simp add: D_def)
    moreover have "length (shoe_cards s') + Suc n =
          length (shoe_cards s) + refills (length (shoe_cards s)) D (Suc n) * D"
      using cnt n1 rf l1 by (simp add: D_def)
    moreover have "Suc n \<le> length (shoe_cards s) \<longrightarrow>
          shoe_cards s = shoe_cards s' @ rev (c # cs) \<and> w' = w"
      using ex l1 split by auto
    moreover have "mset (c # cs) + mset (shoe_cards s') =
          mset (shoe_cards s) + repeat_mset (refills (length (shoe_cards s)) D (Suc n)) M"
    proof -
      have "mset cs + mset (shoe_cards s') =
              mset (shoe_cards s1) + repeat_mset (refills (length (shoe_cards s1)) D n) M"
        using ms n1 by (simp add: D_def M_def)
      moreover have "mset (shoe_cards s) = add_mset c (mset (shoe_cards s1))"
        by (simp add: split)
      ultimately show ?thesis by (simp add: rf)
    qed
    ultimately show ?thesis unfolding D_def M_def by blast
  next
    case True
    from draw_step_empty [OF Suc.prems True, of w]
    obtain c cs1 g' where
      step: "draw_step s w =
           (Inr c, s\<lparr>shoe_cards := cs1\<rparr>,
            w\<lparr>rng := g', stdout := stdout w @ [''Refilling shoe...'']\<rparr>)"
      and l1: "Suc (length cs1) = D"
      and m1: "mset (c # cs1) = M"
      unfolding D_def M_def by blast
    define s1 where "s1 = s\<lparr>shoe_cards := cs1\<rparr>"
    define w1 where "w1 = w\<lparr>rng := g', stdout := stdout w @ [''Refilling shoe...'']\<rparr>"
    have n1: "num_decks s1 = num_decks s" by (simp add: s1_def)
    have c1: "length (shoe_cards s1) = D - 1" using l1 by (simp add: s1_def)
    have o1: "stdout w1 = stdout w @ [''Refilling shoe...'']" by (simp add: w1_def)
    from Suc.prems n1 have "1 \<le> num_decks s1" by simp
    from Suc.IH [OF this, of "acc @ [c]" w1]
    obtain cs s' w' where
      r: "draw_loop n (acc @ [c]) s1 w1 = (Inr ((acc @ [c]) @ cs), s', w')"
      and len: "length cs = n" and nd: "num_decks s' = num_decks s1"
      and out: "stdout w' = stdout w1 @
          replicate (refills (length (shoe_cards s1)) (nat (num_decks s1) * 52) n)
            ''Refilling shoe...''"
      and cnt: "length (shoe_cards s') + n =
          length (shoe_cards s1)
          + refills (length (shoe_cards s1)) (nat (num_decks s1) * 52) n
            * (nat (num_decks s1) * 52)"
      and ms: "mset cs + mset (shoe_cards s') =
          mset (shoe_cards s1)
          + repeat_mset (refills (length (shoe_cards s1)) (nat (num_decks s1) * 52) n)
              (mset (concat (replicate (nat (num_decks s1)) full_deck)))"
      by blast
    have rf: "refills (length (shoe_cards s)) D (Suc n) = Suc (refills (D - 1) D n)"
      using refills_empty [OF Dpos, of n] True by simp
    have "draw_loop (Suc n) acc s w = (Inr (acc @ (c # cs)), s', w')"
      using step r by (simp add: s1_def w1_def)
    moreover have "length (c # cs) = Suc n" using len by simp
    moreover have "num_decks s' = num_decks s" using nd n1 by simp
    moreover have "stdout w' = stdout w @
          replicate (refills (length (shoe_cards s)) D (Suc n)) ''Refilling shoe...''"
      using out n1 rf c1 o1 by (simp add: D_def replicate_append_same)
    moreover have "length (shoe_cards s') + Suc n =
          length (shoe_cards s) + refills (length (shoe_cards s)) D (Suc n) * D"
      using cnt n1 rf c1 True Dpos by (simp add: D_def)
    moreover have "Suc n \<le> length (shoe_cards s) \<longrightarrow>
          shoe_cards s = shoe_cards s' @ rev (c # cs) \<and> w' = w"
      using True by simp
    moreover have "mset (c # cs) + mset (shoe_cards s') =
          mset (shoe_cards s) + repeat_mset (refills (length (shoe_cards s)) D (Suc n)) M"
    proof -
      have "mset cs + mset (shoe_cards s') = mset cs1 + repeat_mset (refills (D - 1) D n) M"
        using ms n1 c1 by (simp add: D_def M_def s1_def)
      then have "mset (c # cs) + mset (shoe_cards s') =
              mset (c # cs1) + repeat_mset (refills (D - 1) D n) M"
        by simp
      also have "\<dots> = repeat_mset (Suc (refills (D - 1) D n)) M"
        using m1 by simp
      finally show ?thesis using True refills_empty [OF Dpos, of n] by simp
    qed
    ultimately show ?thesis unfolding D_def M_def by blast
  qed
qed

lemma draw_cards_ok:
  assumes "1 \<le> num_decks s"
  shows "\<exists>cs s' w'. draw_cards s n w = (Inr cs, s', w') \<and> length cs = nat n
           \<and> num_decks s' = num_decks s"
  using draw_loop_spec [OF assms, of "nat n" "[]" w] by (auto simp add: draw_cards_def)

text \<open>
  Claim C6. On a shoe of at least one deck, \<^verbatim>\<open>draw_cards(n)\<close> raises nothing and
  returns exactly \<open>n\<close> cards (none for a negative \<open>n\<close>), and the shoe loses them: its
  size plus \<open>n\<close> is its size before plus the refilled cards. When the shoe holds at
  least \<open>n\<close> cards there is no refill: the shoe before is the shoe after followed by
  the drawn cards in reverse, and nothing is printed and no random draw is consumed.
  Otherwise each exhaustion refills once: the refills, one printed line each, number
  one for each started run of 52 times the number of decks beyond the cards present.
  In every case the cards returned are cards removed: the returned cards together with
  the cards left are the cards the shoe held together with one full set of decks for
  each refill.
\<close>

theorem draw_cards_spec:
  assumes "1 \<le> num_decks s"
  shows "\<exists>cs s' w'. draw_cards s n w = (Inr cs, s', w')
     \<and> length cs = nat n \<and> num_decks s' = num_decks s
     \<and> stdout w' = stdout w @
          replicate (refills (length (shoe_cards s)) (nat (num_decks s) * 52) (nat n))
            ''Refilling shoe...''
     \<and> length (shoe_cards s') + nat n =
          length (shoe_cards s)
          + refills (length (shoe_cards s)) (nat (num_decks s) * 52) (nat n)
            * (nat (num_decks s) * 52)
     \<and> (nat n \<le> length (shoe_cards s) \<longrightarrow> shoe_cards s = shoe_cards s' @ rev cs \<and> w' = w)
     \<and> mset cs + mset (shoe_cards s') =
          mset (shoe_cards s)
          + repeat_mset (refills (length (shoe_cards s)) (nat (num_decks s) * 52) (nat n))
              (mset (concat (replicate (nat (num_decks s)) full_deck)))"
  using draw_loop_spec [OF assms, of "nat n" "[]" w] by (simp add: draw_cards_def)

text \<open>
  Two cards from a shoe of four: no refill. Two cards from a shoe of one: one refill,
  and 51 cards are left.
\<close>

theorem draw_cards_spec_witness:
  "1 \<le> num_decks small_shoe
   \<and> (\<exists>cs s' w'. draw_cards small_shoe 2 world0 = (Inr cs, s', w') \<and> length cs = 2
         \<and> shoe_cards small_shoe = shoe_cards s' @ rev cs \<and> w' = world0)
   \<and> 1 \<le> num_decks one_card_shoe
   \<and> (\<exists>cs s' w'. draw_cards one_card_shoe 2 world0 = (Inr cs, s', w') \<and> length cs = 2
         \<and> stdout w' = stdout world0 @ [''Refilling shoe...'']
         \<and> length (shoe_cards s') = 51
         \<and> mset cs + mset (shoe_cards s') = mset (shoe_cards one_card_shoe) + mset full_deck)"
proof -
  have a: "1 \<le> num_decks small_shoe" by (simp add: small_shoe_def)
  have b: "1 \<le> num_decks one_card_shoe" by (simp add: one_card_shoe_def)
  have la: "length (shoe_cards small_shoe) = 4" by (simp add: small_shoe_def)
  have lb: "length (shoe_cards one_card_shoe) = 1" by (simp add: one_card_shoe_def)
  have na: "nat (num_decks small_shoe) * 52 = 52" by (simp add: small_shoe_def)
  have nb: "nat (num_decks one_card_shoe) * 52 = 52" by (simp add: one_card_shoe_def)
  have db: "nat (num_decks one_card_shoe) = Suc 0" by (simp add: one_card_shoe_def)
  have ra: "refills 4 52 2 = 0" by (simp add: refills_def)
  have rb: "refills (Suc 0) 52 2 = Suc 0" by (simp add: refills_def)
  have "\<exists>cs s' w'. draw_cards small_shoe 2 world0 = (Inr cs, s', w') \<and> length cs = 2
         \<and> shoe_cards small_shoe = shoe_cards s' @ rev cs \<and> w' = world0"
    using draw_cards_spec [OF a, of 2 world0] by (simp add: la na ra) blast
  moreover have "\<exists>cs s' w'. draw_cards one_card_shoe 2 world0 = (Inr cs, s', w')
         \<and> length cs = 2
         \<and> stdout w' = stdout world0 @ [''Refilling shoe...'']
         \<and> length (shoe_cards s') = 51
         \<and> mset cs + mset (shoe_cards s') = mset (shoe_cards one_card_shoe) + mset full_deck"
    using draw_cards_spec [OF b, of 2 world0] by (simp add: lb nb db rb) blast
  ultimately show ?thesis using a b by blast
qed

section \<open>The round\<close>

lemma draw_one:
  assumes "1 \<le> num_decks s"
  shows "\<exists>c s' w'. draw_cards s 1 w = (Inr [c], s', w') \<and> num_decks s' = num_decks s"
proof -
  obtain cs s' w' where d: "draw_cards s 1 w = (Inr cs, s', w')"
    and l: "length cs = nat 1" and n: "num_decks s' = num_decks s"
    using draw_cards_ok [OF assms, of 1 w] by blast
  from l obtain c where "cs = [c]" by (cases cs) simp_all
  with d n show ?thesis by blast
qed

lemma take_third_two:
  assumes "length (hand_cards h) = 2" "draw_cards s 1 w = (Inr [c], s', w')"
  shows "take_third name h s w =
           (Inr [name, Card_str c], h\<lparr>hand_cards := hand_cards h @ [c]\<rparr>, s', w')"
  using assms by (simp add: take_third_def add_cards_PCard [of h "[c]", simplified] third_of_def nth_append)

lemma third_of_snoc:
  "length (hand_cards h) = 2 \<Longrightarrow> third_of (h\<lparr>hand_cards := hand_cards h @ [c]\<rparr>) = Inr c"
  by (simp add: third_of_def nth_append)

lemma is_natural_false:
  "game_running g \<Longrightarrow> punto g = Some p \<Longrightarrow> banco g = Some b \<Longrightarrow>
   \<not> Hand_is_natural p \<Longrightarrow> \<not> Hand_is_natural b \<Longrightarrow> is_natural g = (Inr False, g)"
  by (simp add: is_natural_def)

lemma is_natural_true:
  "game_running g \<Longrightarrow> punto g = Some p \<Longrightarrow> banco g = Some b \<Longrightarrow>
   Hand_is_natural p \<or> Hand_is_natural b \<Longrightarrow>
   is_natural g = (Inr True, g\<lparr>game_running := False\<rparr>)"
  by (auto simp add: is_natural_def)

lemma hand_value_cases: "hand_value b \<in> {0, 1, 2, 3, 4, 5, 6, 7, 8, 9}"
proof -
  have "0 \<le> hand_value b \<and> hand_value b \<le> 9" by (rule hand_value_range)
  then show ?thesis by simp arith
qed

lemma banco_third_card_total: "\<exists>x. Banco_draw_third b (PCard c) = Inr x"
  using hand_value_cases [of b]
  by (auto simp add: Banco_draw_third_def third_card_rules_simps)

lemma banco_third_none_total: "\<exists>x. Banco_draw_third b PNone = Inr x"
  by (auto simp add: Banco_draw_third_def)

lemma punto_draws_two: "Punto_draw_third p \<Longrightarrow> length (hand_cards p) = 2"
  by (simp add: Punto_draw_third_def split: if_splits)

lemma banco_draws_two: "Banco_draw_third b x = Inr True \<Longrightarrow> length (hand_cards b) = 2"
  by (simp add: Banco_draw_third_def split: if_splits)

text \<open>
  The constructors leave a shoe of at least one deck and a game that is not running,
  and a deal keeps the number of decks.
\<close>

lemma Shoe_init_decks:
  assumes "Shoe_init nd w = (Inr s, w')"
  shows "1 \<le> num_decks s"
proof (cases nd)
  case (PInt n)
  obtain cs g' where a: "add_decks \<lparr>num_decks = n, shoe_cards = []\<rparr> None w =
      (Inr (), \<lparr>num_decks = n, shoe_cards = []\<rparr>\<lparr>shoe_cards := cs\<rparr>, w\<lparr>rng := g'\<rparr>)"
    using add_decks_default [of "\<lparr>num_decks = n, shoe_cards = []\<rparr>" w] by blast
  from assms PInt a show ?thesis
    by (auto simp add: Shoe_init_def split: if_splits)
qed (use assms in \<open>simp_all add: Shoe_init_def\<close>)

lemma Game_init_state:
  assumes "Game_init nd w = (Inr g, w')"
  shows "\<not> game_running g \<and> 1 \<le> num_decks (shoe g)"
  using assms Shoe_init_decks [of nd w]
  by (auto simp add: Game_init_def split: prod.splits sum.splits)

lemma deal_hands_decks:
  assumes "1 \<le> num_decks (shoe g)" "deal_hands g w = (Inr (), g', w')"
  shows "1 \<le> num_decks (shoe g')"
proof -
  obtain cs1 s1 w1 where d1: "draw_cards (shoe g) 2 w = (Inr cs1, s1, w1)"
    and n1: "num_decks s1 = num_decks (shoe g)"
    using draw_cards_ok [OF assms(1), of 2 w] by blast
  from assms(1) n1 have "1 \<le> num_decks s1" by simp
  then obtain cs2 s2 w2 where d2: "draw_cards s1 2 w1 = (Inr cs2, s2, w2)"
    and n2: "num_decks s2 = num_decks s1"
    using draw_cards_ok [of s1 2 w1] by blast
  from assms d1 d2 n1 n2 show ?thesis
    by (auto simp add: deal_hands_def split: if_splits sum.splits)
qed

lemma deal_hands_success:
  assumes "deal_hands g0 w0 = (Inr (), g, w)"
  shows "game_running g \<and> (\<exists>p b. punto g = Some p \<and> banco g = Some b)"
  using assms
  by (auto simp add: deal_hands_def split: if_splits prod.splits sum.splits)

lemma draw_small_2:
  "draw_cards small_shoe 2 w =
     (Inr [hearts 9, king_of_spades], small_shoe\<lparr>shoe_cards := [hearts 2, hearts 3]\<rparr>, w)"
  by (simp add: draw_cards_def draw_step_def pop_def numeral_2_eq_2 small_shoe_def)

lemma draw_small_1:
  "draw_cards small_shoe 1 w =
     (Inr [hearts 9], small_shoe\<lparr>shoe_cards := [hearts 2, hearts 3, king_of_spades]\<rparr>, w)"
  by (simp add: draw_cards_def draw_step_def pop_def small_shoe_def)

lemma draw_small_1':
  "draw_cards (small_shoe\<lparr>shoe_cards := [hearts 2, hearts 3, king_of_spades]\<rparr>) 1 w =
     (Inr [king_of_spades], small_shoe\<lparr>shoe_cards := [hearts 2, hearts 3]\<rparr>, w)"
  by (simp add: draw_cards_def draw_step_def pop_def small_shoe_def)

lemma draw_rest_2:
  "draw_cards (small_shoe\<lparr>shoe_cards := [hearts 2, hearts 3]\<rparr>) 2 w =
     (Inr [hearts 3, hearts 2], \<lparr>num_decks = 1, shoe_cards = []\<rparr>, w)"
  by (simp add: draw_cards_def draw_step_def pop_def numeral_2_eq_2 small_shoe_def)

lemma deal_new_game: "deal_hands new_game w = (Inr (), dealt_game, w)"
  by (simp add: deal_hands_def new_game_def dealt_game_def draw_small_2 draw_rest_2
      Punto_init_def Banco_init_def Hand_init_def)

lemma natural_nine: "Hand_is_natural \<lparr>hand_cards = [hearts 9, king_of_spades]\<rparr>"
  by (simp add: Hand_is_natural_def hand_value_sum hearts_def king_of_spades_def card_value_def)

lemma Card_str_examples:
  "Card_str (hearts 9) = ''9 of hearts''"
  "Card_str king_of_spades = ''king of spades''"
  by code_simp+

lemma game_with_simps:
  "game_running (game_with p b)" "punto (game_with p b) = Some p"
  "banco (game_with p b) = Some b" "shoe (game_with p b) = small_shoe"
  "1 \<le> num_decks (shoe (game_with p b))"
  by (simp_all add: game_with_def small_shoe_def)

lemma not_natural_two_cards:
  "2 \<le> n \<Longrightarrow> n \<le> 7 \<Longrightarrow> \<not> Hand_is_natural (two_cards n)"
  by (simp add: Hand_is_natural_def hand_value_two_cards)

lemma punto_two_cards:
  "Punto_draw_third (two_cards 2)" "\<not> Punto_draw_third (two_cards 6)"
  "\<not> Punto_draw_third (two_cards 7)"
  by (simp_all add: Punto_draw_third_def hand_value_two_cards length_two_cards)

lemma banco_two_cards:
  "Banco_draw_third (two_cards 3) (PCard (hearts 9)) = Inr True"
  "Banco_draw_third (two_cards 7) (PCard (hearts 9)) = Inr False"
  "Banco_draw_third (two_cards 4) PNone = Inr True"
  "Banco_draw_third (two_cards 6) PNone = Inr False"
  by (simp_all add: Banco_draw_third_def hand_value_two_cards length_two_cards
      card_value_hearts third_card_rules_simps)

text \<open>
  Claim C4. On a running round without a natural, \<^verbatim>\<open>draw_thirds\<close> returns a list of
  records, closes the round, and has done exactly this: when \<^verbatim>\<open>Punto.draw_third()\<close> holds,
  one card is drawn into Punto and recorded, and then, only when \<^verbatim>\<open>Banco.draw_third\<close> of
  that card holds, one card is drawn into Banco and recorded after it; when Punto does
  not draw, one card is drawn into Banco and recorded iff \<^verbatim>\<open>Banco.draw_third()\<close> without
  a card holds. So there is at most one record for each hand, in the order of the draws,
  and the list may be empty. A record is the name of the hand and the string of the
  card.
\<close>

theorem draw_thirds_sequence:
  assumes "game_running g" "punto g = Some p" "banco g = Some b"
    and "1 \<le> num_decks (shoe g)"
    and "\<not> Hand_is_natural p" "\<not> Hand_is_natural b"
  shows "\<exists>recs g' w'. draw_thirds g w = (Inr recs, g', w')
     \<and> \<not> game_running g' \<and> length recs \<le> 2
     \<and> (Punto_draw_third p \<longrightarrow>
          (\<exists>c s1 w1. draw_cards (shoe g) 1 w = (Inr [c], s1, w1)
             \<and> punto g' = Some (p\<lparr>hand_cards := hand_cards p @ [c]\<rparr>)
             \<and> (Banco_draw_third b (PCard c) = Inr True \<longrightarrow>
                  (\<exists>c2 s2 w2. draw_cards s1 1 w1 = (Inr [c2], s2, w2)
                     \<and> banco g' = Some (b\<lparr>hand_cards := hand_cards b @ [c2]\<rparr>)
                     \<and> recs = [[''punto'', Card_str c], [''banco'', Card_str c2]]
                     \<and> shoe g' = s2 \<and> w' = w2))
             \<and> (Banco_draw_third b (PCard c) \<noteq> Inr True \<longrightarrow>
                  banco g' = Some b \<and> recs = [[''punto'', Card_str c]]
                  \<and> shoe g' = s1 \<and> w' = w1)))
     \<and> (\<not> Punto_draw_third p \<longrightarrow>
          punto g' = Some p
          \<and> (Banco_draw_third b PNone = Inr True \<longrightarrow>
               (\<exists>c s1 w1. draw_cards (shoe g) 1 w = (Inr [c], s1, w1)
                  \<and> banco g' = Some (b\<lparr>hand_cards := hand_cards b @ [c]\<rparr>)
                  \<and> recs = [[''banco'', Card_str c]]
                  \<and> shoe g' = s1 \<and> w' = w1))
          \<and> (Banco_draw_third b PNone \<noteq> Inr True \<longrightarrow>
               banco g' = Some b \<and> recs = [] \<and> shoe g' = shoe g \<and> w' = w))"
proof -
  have nat: "is_natural g = (Inr False, g)"
    using assms(1,2,3,5,6) by (rule is_natural_false)
  obtain c s1 w1 where d1: "draw_cards (shoe g) 1 w = (Inr [c], s1, w1)"
    and n1: "num_decks s1 = num_decks (shoe g)"
    using draw_one [OF assms(4), of w] by blast
  from assms(4) n1 have "1 \<le> num_decks s1" by simp
  then obtain c2 s2 w2 where d2: "draw_cards s1 1 w1 = (Inr [c2], s2, w2)"
    using draw_one [of s1 w1] by blast
  show ?thesis
  proof (cases "Punto_draw_third p")
    case True
    then have lp: "length (hand_cards p) = 2" by (rule punto_draws_two)
    let ?p1 = "p\<lparr>hand_cards := hand_cards p @ [c]\<rparr>"
    have t1: "take_third ''punto'' p (shoe g) w = (Inr [''punto'', Card_str c], ?p1, s1, w1)"
      using lp d1 by (rule take_third_two)
    have th: "third_of ?p1 = Inr c" using lp by (rule third_of_snoc)
    obtain x where bx: "Banco_draw_third b (PCard c) = Inr x"
      using banco_third_card_total [of b c] by blast
    show ?thesis
    proof (cases x)
      case True
      with bx have bt: "Banco_draw_third b (PCard c) = Inr True" by simp
      then have lb: "length (hand_cards b) = 2" by (rule banco_draws_two)
      let ?b1 = "b\<lparr>hand_cards := hand_cards b @ [c2]\<rparr>"
      have t2: "take_third ''banco'' b s1 w1 = (Inr [''banco'', Card_str c2], ?b1, s2, w2)"
        using lb d2 by (rule take_third_two)
      have "draw_thirds g w =
              (Inr [[''punto'', Card_str c], [''banco'', Card_str c2]],
               g\<lparr>punto := Some ?p1, banco := Some ?b1, shoe := s2, game_running := False\<rparr>, w2)"
        using assms(1,2,3) nat \<open>Punto_draw_third p\<close> t1 th bt t2
        by (simp add: draw_thirds_def)
      then show ?thesis
        using \<open>Punto_draw_third p\<close> d1 d2 bt by simp
    next
      case False
      with bx have bf: "Banco_draw_third b (PCard c) = Inr False" by simp
      have "draw_thirds g w =
              (Inr [[''punto'', Card_str c]],
               g\<lparr>punto := Some ?p1, shoe := s1, game_running := False\<rparr>, w1)"
        using assms(1,2,3) nat \<open>Punto_draw_third p\<close> t1 th bf
        by (simp add: draw_thirds_def)
      then show ?thesis
        using \<open>Punto_draw_third p\<close> d1 bf assms(3) by simp
    qed
  next
    case False
    obtain x where bx: "Banco_draw_third b PNone = Inr x"
      using banco_third_none_total [of b] by blast
    show ?thesis
    proof (cases x)
      case True
      with bx have bt: "Banco_draw_third b PNone = Inr True" by simp
      then have lb: "length (hand_cards b) = 2" by (rule banco_draws_two)
      let ?b1 = "b\<lparr>hand_cards := hand_cards b @ [c]\<rparr>"
      have t2: "take_third ''banco'' b (shoe g) w = (Inr [''banco'', Card_str c], ?b1, s1, w1)"
        using lb d1 by (rule take_third_two)
      have "draw_thirds g w =
              (Inr [[''banco'', Card_str c]],
               g\<lparr>banco := Some ?b1, shoe := s1, game_running := False\<rparr>, w1)"
        using assms(1,2,3) nat \<open>\<not> Punto_draw_third p\<close> bt t2
        by (simp add: draw_thirds_def)
      then show ?thesis
        using \<open>\<not> Punto_draw_third p\<close> d1 bt assms(2) by simp
    next
      case False
      with bx have bf: "Banco_draw_third b PNone = Inr False" by simp
      have "draw_thirds g w = (Inr [], g\<lparr>game_running := False\<rparr>, w)"
        using assms(1,2,3) nat \<open>\<not> Punto_draw_third p\<close> bf
        by (simp add: draw_thirds_def)
      then show ?thesis
        using \<open>\<not> Punto_draw_third p\<close> bf assms(2,3) by simp
    qed
  qed
qed

text \<open>
  The four courses of the sequence, from a shoe whose next cards are the 9 of hearts
  and the king of spades: both hands draw; only Punto draws; only Banco draws; neither
  draws.
\<close>

theorem draw_thirds_sequence_witness:
  "Punto_draw_third (two_cards 2)
   \<and> Banco_draw_third (two_cards 3) (PCard (hearts 9)) = Inr True
   \<and> (\<exists>g'. draw_thirds (game_with (two_cards 2) (two_cards 3)) world0 =
          (Inr [[''punto'', ''9 of hearts''], [''banco'', ''king of spades'']], g', world0)
        \<and> \<not> game_running g'
        \<and> punto g' = Some \<lparr>hand_cards = [hearts 2, king_of_spades, hearts 9]\<rparr>
        \<and> banco g' = Some \<lparr>hand_cards = [hearts 3, king_of_spades, king_of_spades]\<rparr>
        \<and> shoe g' = small_shoe\<lparr>shoe_cards := [hearts 2, hearts 3]\<rparr>)
   \<and> Banco_draw_third (two_cards 7) (PCard (hearts 9)) = Inr False
   \<and> (\<exists>g'. draw_thirds (game_with (two_cards 2) (two_cards 7)) world0 =
          (Inr [[''punto'', ''9 of hearts'']], g', world0)
        \<and> \<not> game_running g'
        \<and> punto g' = Some \<lparr>hand_cards = [hearts 2, king_of_spades, hearts 9]\<rparr>
        \<and> banco g' = Some (two_cards 7)
        \<and> shoe g' = small_shoe\<lparr>shoe_cards := [hearts 2, hearts 3, king_of_spades]\<rparr>)
   \<and> \<not> Punto_draw_third (two_cards 6)
   \<and> Banco_draw_third (two_cards 4) PNone = Inr True
   \<and> (\<exists>g'. draw_thirds (game_with (two_cards 6) (two_cards 4)) world0 =
          (Inr [[''banco'', ''9 of hearts'']], g', world0)
        \<and> \<not> game_running g'
        \<and> punto g' = Some (two_cards 6)
        \<and> banco g' = Some \<lparr>hand_cards = [hearts 4, king_of_spades, hearts 9]\<rparr>
        \<and> shoe g' = small_shoe\<lparr>shoe_cards := [hearts 2, hearts 3, king_of_spades]\<rparr>)
   \<and> \<not> Punto_draw_third (two_cards 7)
   \<and> Banco_draw_third (two_cards 6) PNone = Inr False
   \<and> (\<exists>g'. draw_thirds (game_with (two_cards 7) (two_cards 6)) world0 =
          (Inr [], g', world0)
        \<and> \<not> game_running g'
        \<and> punto g' = Some (two_cards 7) \<and> banco g' = Some (two_cards 6)
        \<and> shoe g' = small_shoe)"
proof -
  note gs = game_with_simps
  have nn: "\<not> Hand_is_natural (two_cards 2)" "\<not> Hand_is_natural (two_cards 3)"
    "\<not> Hand_is_natural (two_cards 4)" "\<not> Hand_is_natural (two_cards 6)"
    "\<not> Hand_is_natural (two_cards 7)"
    by (simp_all add: not_natural_two_cards)
  note ev = punto_two_cards banco_two_cards draw_small_1 draw_small_1' Card_str_examples
  have a: "\<exists>g'. draw_thirds (game_with (two_cards 2) (two_cards 3)) world0 =
          (Inr [[''punto'', ''9 of hearts''], [''banco'', ''king of spades'']], g', world0)
        \<and> \<not> game_running g'
        \<and> punto g' = Some \<lparr>hand_cards = [hearts 2, king_of_spades, hearts 9]\<rparr>
        \<and> banco g' = Some \<lparr>hand_cards = [hearts 3, king_of_spades, king_of_spades]\<rparr>
        \<and> shoe g' = small_shoe\<lparr>shoe_cards := [hearts 2, hearts 3]\<rparr>"
    using draw_thirds_sequence [OF gs(1) gs(2) gs(3) gs(5) nn(1) nn(2), of world0]
    by (simp add: gs(4) ev) (auto simp add: two_cards_def)
  have b: "\<exists>g'. draw_thirds (game_with (two_cards 2) (two_cards 7)) world0 =
          (Inr [[''punto'', ''9 of hearts'']], g', world0)
        \<and> \<not> game_running g'
        \<and> punto g' = Some \<lparr>hand_cards = [hearts 2, king_of_spades, hearts 9]\<rparr>
        \<and> banco g' = Some (two_cards 7)
        \<and> shoe g' = small_shoe\<lparr>shoe_cards := [hearts 2, hearts 3, king_of_spades]\<rparr>"
    using draw_thirds_sequence [OF gs(1) gs(2) gs(3) gs(5) nn(1) nn(5), of world0]
    by (simp add: gs(4) ev) (auto simp add: two_cards_def)
  have c: "\<exists>g'. draw_thirds (game_with (two_cards 6) (two_cards 4)) world0 =
          (Inr [[''banco'', ''9 of hearts'']], g', world0)
        \<and> \<not> game_running g'
        \<and> punto g' = Some (two_cards 6)
        \<and> banco g' = Some \<lparr>hand_cards = [hearts 4, king_of_spades, hearts 9]\<rparr>
        \<and> shoe g' = small_shoe\<lparr>shoe_cards := [hearts 2, hearts 3, king_of_spades]\<rparr>"
    using draw_thirds_sequence [OF gs(1) gs(2) gs(3) gs(5) nn(4) nn(3), of world0]
    by (simp add: gs(4) ev) (auto simp add: two_cards_def)
  have d: "\<exists>g'. draw_thirds (game_with (two_cards 7) (two_cards 6)) world0 =
          (Inr [], g', world0)
        \<and> \<not> game_running g'
        \<and> punto g' = Some (two_cards 7) \<and> banco g' = Some (two_cards 6)
        \<and> shoe g' = small_shoe"
    using draw_thirds_sequence [OF gs(1) gs(2) gs(3) gs(5) nn(5) nn(4), of world0]
    by (simp add: gs(4) ev)
  from a b c d show ?thesis by (simp add: ev)
qed

text \<open>
  Claim C9. \<^verbatim>\<open>draw_thirds\<close> on a running round with a natural hand raises the natural
  error, and the round is closed all the same: \<^verbatim>\<open>is_natural\<close>, which it calls, has set the
  flag before the error is raised. So \<^verbatim>\<open>game_result\<close> afterwards returns an outcome and
  not the error of a running game.
\<close>

theorem draw_thirds_natural_closes:
  assumes "game_running g" "punto g = Some p" "banco g = Some b"
    and "Hand_is_natural p \<or> Hand_is_natural b"
  shows "draw_thirds g w = (Inl (GameError natural_message), g\<lparr>game_running := False\<rparr>, w)
         \<and> (\<exists>r. game_result (g\<lparr>game_running := False\<rparr>)
                  = (Inr r, g\<lparr>game_running := False\<rparr>))
         \<and> fst (game_result (g\<lparr>game_running := False\<rparr>)) \<noteq> Inl (GameError ''Game is running.'')"
proof -
  have n: "is_natural g = (Inr True, g\<lparr>game_running := False\<rparr>)"
    using assms by (rule is_natural_true)
  have d: "draw_thirds g w = (Inl (GameError natural_message), g\<lparr>game_running := False\<rparr>, w)"
    using assms(1) n by (simp add: draw_thirds_def)
  have r: "\<exists>r. game_result (g\<lparr>game_running := False\<rparr>) = (Inr r, g\<lparr>game_running := False\<rparr>)"
    using assms(2,3) by (simp add: game_result_def)
  then have "fst (game_result (g\<lparr>game_running := False\<rparr>)) \<noteq> Inl (GameError ''Game is running.'')"
    by auto
  with d r show ?thesis by blast
qed

text \<open>
  The game after the deal of a natural 9 to Punto.
\<close>

theorem draw_thirds_natural_closes_witness:
  "game_running dealt_game
   \<and> punto dealt_game = Some \<lparr>hand_cards = [hearts 9, king_of_spades]\<rparr>
   \<and> banco dealt_game = Some \<lparr>hand_cards = [hearts 3, hearts 2]\<rparr>
   \<and> Hand_is_natural \<lparr>hand_cards = [hearts 9, king_of_spades]\<rparr>
   \<and> draw_thirds dealt_game world0 =
       (Inl (GameError natural_message), dealt_game\<lparr>game_running := False\<rparr>, world0)
   \<and> (\<exists>r. game_result (dealt_game\<lparr>game_running := False\<rparr>) =
        (Inr r, dealt_game\<lparr>game_running := False\<rparr>))"
proof -
  have r: "game_running dealt_game" by (simp add: dealt_game_def)
  have p: "punto dealt_game = Some \<lparr>hand_cards = [hearts 9, king_of_spades]\<rparr>"
    by (simp add: dealt_game_def)
  have b: "banco dealt_game = Some \<lparr>hand_cards = [hearts 3, hearts 2]\<rparr>"
    by (simp add: dealt_game_def)
  have n: "Hand_is_natural \<lparr>hand_cards = [hearts 9, king_of_spades]\<rparr>
           \<or> Hand_is_natural \<lparr>hand_cards = [hearts 3, hearts 2]\<rparr>"
    using natural_nine by simp
  from draw_thirds_natural_closes [OF r p b n, of world0] r p b natural_nine
  show ?thesis by simp
qed

text \<open>
  Claim C10. On a closed round with both hands dealt, \<^verbatim>\<open>game_result\<close> returns punto,
  banco or tie by comparing the two hand values, the game after the call is the game
  before it (shoe, hands and flag), and calling it again returns the same.
\<close>

theorem game_result_pure:
  assumes "\<not> game_running g" "punto g = Some p" "banco g = Some b"
  shows "game_result g =
           (Inr (if hand_value p > hand_value b then ''punto''
                 else if hand_value p < hand_value b then ''banco'' else ''tie''), g)
         \<and> snd (game_result g) = g
         \<and> game_result (snd (game_result g)) = game_result g"
  using assms by (simp add: game_result_def)

text \<open>
  The closed round of a Punto of 9 against a Banco of 5.
\<close>

theorem game_result_pure_witness:
  "\<not> game_running (dealt_game\<lparr>game_running := False\<rparr>)
   \<and> punto (dealt_game\<lparr>game_running := False\<rparr>) = Some \<lparr>hand_cards = [hearts 9, king_of_spades]\<rparr>
   \<and> banco (dealt_game\<lparr>game_running := False\<rparr>) = Some \<lparr>hand_cards = [hearts 3, hearts 2]\<rparr>
   \<and> game_result (dealt_game\<lparr>game_running := False\<rparr>) =
       (Inr ''punto'', dealt_game\<lparr>game_running := False\<rparr>)
   \<and> game_result (snd (game_result (dealt_game\<lparr>game_running := False\<rparr>))) =
       game_result (dealt_game\<lparr>game_running := False\<rparr>)"
proof -
  let ?g = "dealt_game\<lparr>game_running := False\<rparr>"
  have r: "\<not> game_running ?g" by simp
  have p: "punto ?g = Some \<lparr>hand_cards = [hearts 9, king_of_spades]\<rparr>"
    by (simp add: dealt_game_def)
  have b: "banco ?g = Some \<lparr>hand_cards = [hearts 3, hearts 2]\<rparr>"
    by (simp add: dealt_game_def)
  have v: "hand_value \<lparr>hand_cards = [hearts 9, king_of_spades]\<rparr> = 9"
    "hand_value \<lparr>hand_cards = [hearts 3, hearts 2]\<rparr> = 5"
    by (simp_all add: hand_value_sum hearts_def king_of_spades_def card_value_def)
  from game_result_pure [OF r p b] r p b show ?thesis by (simp add: v)
qed

text \<open>
  Claim C1, as the code has it. When the deal has produced a natural hand,
  \<^verbatim>\<open>is_natural\<close> returns true and leaves the round closed, and \<^verbatim>\<open>draw_thirds\<close> after it
  fails at its first check, with the error of a game that is not running.
\<close>

theorem natural_then_not_running:
  assumes "deal_hands g0 w0 = (Inr (), g, w)"
    and "punto g = Some h \<or> banco g = Some h" and "Hand_is_natural h"
  shows "is_natural g = (Inr True, g\<lparr>game_running := False\<rparr>)
         \<and> \<not> game_running (snd (is_natural g))
         \<and> draw_thirds (snd (is_natural g)) w =
             (Inl (GameError ''Game is not running.''), g\<lparr>game_running := False\<rparr>, w)"
proof -
  from deal_hands_success [OF assms(1)] obtain p b where
    run: "game_running g" and p: "punto g = Some p" and b: "banco g = Some b" by blast
  from assms(2,3) p b have "Hand_is_natural p \<or> Hand_is_natural b" by auto
  with run p b have n: "is_natural g = (Inr True, g\<lparr>game_running := False\<rparr>)"
    by (rule is_natural_true)
  then show ?thesis by (simp add: draw_thirds_def)
qed

text \<open>
  The deal of a natural 9 to Punto from the shoe of four cards.
\<close>

theorem natural_then_not_running_witness:
  "deal_hands new_game world0 = (Inr (), dealt_game, world0)
   \<and> punto dealt_game = Some \<lparr>hand_cards = [hearts 9, king_of_spades]\<rparr>
   \<and> Hand_is_natural \<lparr>hand_cards = [hearts 9, king_of_spades]\<rparr>
   \<and> is_natural dealt_game = (Inr True, dealt_game\<lparr>game_running := False\<rparr>)
   \<and> draw_thirds (snd (is_natural dealt_game)) world0 =
       (Inl (GameError ''Game is not running.''), dealt_game\<lparr>game_running := False\<rparr>, world0)"
proof -
  have p: "punto dealt_game = Some \<lparr>hand_cards = [hearts 9, king_of_spades]\<rparr>
           \<or> banco dealt_game = Some \<lparr>hand_cards = [hearts 9, king_of_spades]\<rparr>"
    by (simp add: dealt_game_def)
  have p': "punto dealt_game = Some \<lparr>hand_cards = [hearts 9, king_of_spades]\<rparr>"
    by (simp add: dealt_game_def)
  from natural_then_not_running [OF deal_new_game p natural_nine, of world0]
  show ?thesis using deal_new_game [of world0] p' natural_nine by blast
qed

text \<open>
  Claim C1 as stated fails: after that deal and \<^verbatim>\<open>is_natural\<close>, the error of
  \<^verbatim>\<open>draw_thirds\<close> is not the natural error.
\<close>

theorem natural_then_running_counterexample:
  "deal_hands new_game world0 = (Inr (), dealt_game, world0)
   \<and> punto dealt_game = Some \<lparr>hand_cards = [hearts 9, king_of_spades]\<rparr>
   \<and> Hand_is_natural \<lparr>hand_cards = [hearts 9, king_of_spades]\<rparr>
   \<and> is_natural dealt_game = (Inr True, dealt_game\<lparr>game_running := False\<rparr>)
   \<and> draw_thirds (dealt_game\<lparr>game_running := False\<rparr>) world0 =
       (Inl (GameError ''Game is not running.''), dealt_game\<lparr>game_running := False\<rparr>, world0)
   \<and> fst (draw_thirds (dealt_game\<lparr>game_running := False\<rparr>) world0)
       \<noteq> Inl (GameError natural_message)"
proof -
  have p: "punto dealt_game = Some \<lparr>hand_cards = [hearts 9, king_of_spades]\<rparr>"
    by (simp add: dealt_game_def)
  have n: "is_natural dealt_game = (Inr True, dealt_game\<lparr>game_running := False\<rparr>)"
    using natural_nine by (simp add: is_natural_def dealt_game_def)
  have d: "draw_thirds (dealt_game\<lparr>game_running := False\<rparr>) world0 =
       (Inl (GameError ''Game is not running.''), dealt_game\<lparr>game_running := False\<rparr>, world0)"
    by (simp add: draw_thirds_def)
  have "fst (draw_thirds (dealt_game\<lparr>game_running := False\<rparr>) world0)
       \<noteq> Inl (GameError natural_message)"
    by (simp add: d natural_message_def)
  with deal_new_game p natural_nine n d show ?thesis by simp
qed

end
